theory Spec2Isabelle
  imports Complex_Main "HOL-Library.AList"
begin

section \<open>PyBenQaseIO: a shallow embedding of \<open>pybenqaseio/qase_io.py\<close>\<close>

text \<open>
  The module wraps the Qase REST client. The generated client, its HTTP transport, the
  logger and the local test-file indexer are external to the repository; the client is a
  parameter \<open>api\<close> of every operation below, and the indexer's output is an argument.
  Python exceptions are values of \<open>py_error\<close>; an operation returns \<open>Inl e\<close> when the
  Python code would leave the function with the uncaught exception \<open>e\<close>.
\<close>

datatype py_error =
    ApiException | AttributeError | KeyError | IndexError | TypeError | ValueError
  | AssertionError | FileNotFoundError | RecursionError

subsection \<open>Paginated fetch (\<open>QaseIO.get_all_instances\<close>)\<close>

text \<open>
  A list response: \<open>Result entities filtered\<close> stands for an object whose \<open>result\<close>
  has the two fields the code reads; \<open>NoResult\<close> for a response without a usable
  \<open>result\<close>, on which \<open>res.result.entities\<close> raises \<open>AttributeError\<close>.
  \<open>func\<close> is the bound list operation of the client (the project code is fixed), with
  the state of the remote side threaded through.

  The function calls itself once per page, one activation inside the other, and the
  interpreter bounds the depth of nested calls (\<open>sys.getrecursionlimit()\<close>, 1000
  unless it is changed). \<open>depth\<close> is the number of nested activations of
  \<open>get_all_instances\<close>, each with the frames of the client call it makes, that the
  stack still has room for where the first call is made; under the default limit it
  is below 1000. The activation for which there is no room raises \<open>RecursionError\<close>
  before it has sent a request. So the function always returns or raises.
\<close>

datatype 'a page = NoResult | Result (entities: "'a list") (filtered: int)

fun get_all_instances ::
  "nat \<Rightarrow> (int \<Rightarrow> int \<Rightarrow> 's \<Rightarrow> (py_error + 'a page) \<times> 's) \<Rightarrow> int \<Rightarrow> int \<Rightarrow> 's
     \<Rightarrow> (py_error + 'a list) \<times> 's"
where
  "get_all_instances 0 func limit offset s = (Inl RecursionError, s)"
| "get_all_instances (Suc depth) func limit offset s =
     (case func limit offset s of
        (Inl e, s1) \<Rightarrow> (Inl e, s1)
      | (Inr NoResult, s1) \<Rightarrow> (Inl AttributeError, s1)
      | (Inr (Result ents filt), s1) \<Rightarrow>
          if limit + offset < filt then
            (case get_all_instances depth func limit (offset + limit) s1 of
               (Inl e, s2) \<Rightarrow> (Inl e, s2)
             | (Inr rest, s2) \<Rightarrow> (Inr (ents @ rest), s2))
          else (Inr ents, s1))"

text \<open>
  A remote list operation that holds the entities \<open>xs\<close>, reports their number as the
  total, and serves the window \<open>[offset, offset + limit)\<close>. Its state is the list of
  requests \<open>(limit, offset)\<close> it has received.
\<close>

definition paged_remote ::
  "'a list \<Rightarrow> int \<Rightarrow> int \<Rightarrow> (int \<times> int) list \<Rightarrow> (py_error + 'a page) \<times> (int \<times> int) list"
where
  "paged_remote xs limit offset reqs =
     (Inr (Result (take (nat limit) (drop (nat offset) xs)) (int (length xs))),
      reqs @ [(limit, offset)])"

text \<open>The number of requests issued from offset \<open>off\<close> on, for page size \<open>P\<close> and total \<open>N\<close>.\<close>

definition pages_from :: "int \<Rightarrow> int \<Rightarrow> int \<Rightarrow> nat" where
  "pages_from P N off = (if N \<le> off then 1 else nat ((N - off + P - 1) div P))"

subsection \<open>Config store (\<open>QaseIO.QaseConfig\<close>)\<close>

text \<open>
  The configuration document is a JSON value; an object is an association list, in
  insertion order as a Python \<open>dict\<close> is. \<open>config_file\<close> is the content of
  \<open>qase.config.json\<close> on disk, \<open>None\<close> when the file does not exist.
\<close>

datatype json =
    JNull | JBool bool | JInt int | JStr string | JArr "json list"
  | JObj "(string \<times> json) list"

record config =
  config_obj :: json
  config_file :: "json option"

definition qase_default_config :: "string \<Rightarrow> string \<Rightarrow> json" where
  "qase_default_config project_code qase_pytest_api_key =
     JObj [
       (''mode'', JStr ''testops''),
       (''fallback'', JStr ''report''),
       (''report'', JObj [
          (''driver'', JStr ''local''),
          (''connection'', JObj [
             (''local'', JObj [
                (''path'', JStr ''./build/qase-report''),
                (''format'', JStr ''json'')])])]),
       (''testops'', JObj [
          (''project'', JStr project_code),
          (''api'', JObj [
             (''token'', JStr qase_pytest_api_key),
             (''host'', JStr ''qase.io'')]),
          (''run'', JObj [(''complete'', JBool False)]),
          (''defect'', JBool False),
          (''bulk'', JBool True),
          (''chunk'', JInt 200)]),
       (''framework'', JObj [
          (''pytest'', JObj [
             (''capture'', JObj [
                (''logs'', JBool True),
                (''http'', JBool True)])])]),
       (''environment'', JStr ''local'')]"

text \<open>
  \<open>__init__\<close>: read the file when it exists, else take the default document.
  \<open>write\<close>, \<open>read\<close> and \<open>remove\<close> carry the suffix \<open>_config\<close> here.
\<close>

definition config_init :: "string \<Rightarrow> string \<Rightarrow> json option \<Rightarrow> config" where
  "config_init project_code qase_pytest_api_key disk =
     (case disk of
        Some d \<Rightarrow> \<lparr>config_obj = d, config_file = disk\<rparr>
      | None \<Rightarrow> \<lparr>config_obj = qase_default_config project_code qase_pytest_api_key,
                config_file = None\<rparr>)"

definition write_config :: "config \<Rightarrow> config" where
  "write_config c = c\<lparr>config_file := Some (config_obj c)\<rparr>"

definition read_config :: "config \<Rightarrow> py_error + config" where
  "read_config c = (case config_file c of
               None \<Rightarrow> Inl FileNotFoundError
             | Some d \<Rightarrow> Inr (c\<lparr>config_obj := d\<rparr>))"

definition remove_config :: "config \<Rightarrow> config" where
  "remove_config c = c\<lparr>config_file := None\<rparr>"

text \<open>\<open>d[k]\<close>: \<open>KeyError\<close> on a missing key, \<open>TypeError\<close> when \<open>d\<close> is not a dict.\<close>

fun get_item :: "json \<Rightarrow> string \<Rightarrow> py_error + json" where
  "get_item (JObj kvs) k = (case map_of kvs k of None \<Rightarrow> Inl KeyError | Some v \<Rightarrow> Inr v)"
| "get_item _ k = Inl TypeError"

fun set_item :: "string \<Rightarrow> json \<Rightarrow> json \<Rightarrow> json" where
  "set_item k v (JObj kvs) = JObj (AList.update k v kvs)"
| "set_item k v d = d"

text \<open>
  One statement on \<open>self.config_obj['testops']['run']\<close>: the two subscripts are
  evaluated, then the dict found there is changed in place by \<open>f\<close>. A store into, or a
  \<open>pop\<close> on, something that is not a dict raises.
\<close>

definition on_run :: "((string \<times> json) list \<Rightarrow> (string \<times> json) list) \<Rightarrow> json \<Rightarrow> py_error + json"
where
  "on_run f doc =
     (case get_item doc ''testops'' of
        Inl e \<Rightarrow> Inl e
      | Inr testops \<Rightarrow>
          (case get_item testops ''run'' of
             Inl e \<Rightarrow> Inl e
           | Inr run \<Rightarrow>
               (case run of
                  JObj kvs \<Rightarrow>
                    Inr (set_item ''testops'' (set_item ''run'' (JObj (f kvs)) testops) doc)
                | _ \<Rightarrow> Inl TypeError)))"

text \<open>
  \<open>run_id: Union[int, str]\<close> goes through \<open>int(run_id)\<close>, evaluated before the store.
  On an \<open>int\<close> it is the identity; on a \<open>str\<close> it is Python's parser of integer
  literals, the parameter \<open>parse\<close> here, which raises \<open>ValueError\<close> where it gives
  \<open>None\<close>.
\<close>

datatype run_id_arg = IdInt int | IdStr string

fun py_int :: "(string \<Rightarrow> int option) \<Rightarrow> run_id_arg \<Rightarrow> py_error + int" where
  "py_int parse (IdInt i) = Inr i"
| "py_int parse (IdStr s) = (case parse s of None \<Rightarrow> Inl ValueError | Some i \<Rightarrow> Inr i)"

definition add_run_id :: "(string \<Rightarrow> int option) \<Rightarrow> run_id_arg \<Rightarrow> config \<Rightarrow> py_error + config"
where
  "add_run_id parse run_id c =
     (case py_int parse run_id of
        Inl e \<Rightarrow> Inl e
      | Inr i \<Rightarrow>
          (case on_run (AList.update ''id'' (JInt i)) (config_obj c) of
             Inl e \<Rightarrow> Inl e
           | Inr d1 \<Rightarrow>
               (case on_run (AList.delete ''title'') d1 of
                  Inl e \<Rightarrow> Inl e
                | Inr d2 \<Rightarrow>
                    (case on_run (AList.update ''complete'' (JBool False)) d2 of
                       Inl e \<Rightarrow> Inl e
                     | Inr d3 \<Rightarrow> Inr (write_config (c\<lparr>config_obj := d3\<rparr>))))))"

definition add_run_title :: "string \<Rightarrow> config \<Rightarrow> py_error + config" where
  "add_run_title run_title c =
     (case on_run (AList.update ''title'' (JStr run_title)) (config_obj c) of
        Inl e \<Rightarrow> Inl e
      | Inr d1 \<Rightarrow>
          (case on_run (AList.delete ''id'') d1 of
             Inl e \<Rightarrow> Inl e
           | Inr d2 \<Rightarrow>
               (case on_run (AList.update ''complete'' (JBool True)) d2 of
                  Inl e \<Rightarrow> Inl e
                | Inr d3 \<Rightarrow> Inr (write_config (c\<lparr>config_obj := d3\<rparr>)))))"

definition complete_run :: "config \<Rightarrow> py_error + config" where
  "complete_run c =
     (case on_run (AList.update ''complete'' (JBool True)) (config_obj c) of
        Inl e \<Rightarrow> Inl e
      | Inr d \<Rightarrow> Inr (write_config (c\<lparr>config_obj := d\<rparr>)))"

definition dont_complete_run :: "config \<Rightarrow> py_error + config" where
  "dont_complete_run c =
     (case on_run (AList.update ''complete'' (JBool False)) (config_obj c) of
        Inl e \<Rightarrow> Inl e
      | Inr d \<Rightarrow> Inr (write_config (c\<lparr>config_obj := d\<rparr>)))"

text \<open>
  The run section of a document, as a map from keys to values, when the document has
  one: what \<open>config_obj['testops']['run']\<close> evaluates to.
\<close>

definition run_section :: "json \<Rightarrow> (string \<times> json) list option" where
  "run_section doc =
     (case get_item doc ''testops'' of
        Inl e \<Rightarrow> None
      | Inr testops \<Rightarrow>
          (case get_item testops ''run'' of
             Inr (JObj kvs) \<Rightarrow> Some kvs
           | _ \<Rightarrow> None))"

definition run_key :: "json \<Rightarrow> string \<Rightarrow> json option" where
  "run_key doc k = (case run_section doc of None \<Rightarrow> None | Some kvs \<Rightarrow> map_of kvs k)"

text \<open>The invariant of the run section: a run id or a run title, never both.\<close>

definition id_xor_title :: "json \<Rightarrow> bool" where
  "id_xor_title doc = (\<not> (run_key doc ''id'' \<noteq> None \<and> run_key doc ''title'' \<noteq> None))"

text \<open>A store whose run section holds a title, as \<open>add_run_title\<close> leaves it.\<close>

definition config_with_title :: config where
  "config_with_title =
     \<lparr>config_obj =
        JObj [(''mode'', JStr ''testops''),
              (''testops'', JObj [(''project'', JStr ''DEMO''),
                                  (''run'', JObj [(''complete'', JBool True),
                                                  (''title'', JStr ''X'')])])],
      config_file = None\<rparr>"

subsection \<open>Strings\<close>

text \<open>
  The string methods the suite synchronizer uses, on ASCII text: \<open>str.lower\<close>,
  \<open>str.split()\<close> and \<open>str.strip()\<close> (on whitespace), \<open>str.split('(', 1)[0]\<close>,
  \<open>str.replace('-', '')\<close> and \<open>' '.join\<close>. The whitespace characters below
  \<open>0x80\<close> are the blank, \<open>\t \n \v \f \r\<close> and \<open>0x1C\<close> to \<open>0x1F\<close>.
\<close>

definition is_space :: "char \<Rightarrow> bool" where
  "is_space c = (c \<in> set [CHR 0x20, CHR 0x09, CHR 0x0A, CHR 0x0B, CHR 0x0C, CHR 0x0D,
                           CHR 0x1C, CHR 0x1D, CHR 0x1E, CHR 0x1F])"

definition lower_char :: "char \<Rightarrow> char" where
  "lower_char c =
     (let n = (of_char c :: nat) in if 65 \<le> n \<and> n \<le> 90 then char_of (n + 32) else c)"

definition py_lower :: "string \<Rightarrow> string" where
  "py_lower s = map lower_char s"

function py_split :: "string \<Rightarrow> string list" where
  "py_split [] = []"
| "py_split (c # cs) =
     (if is_space c then py_split cs
      else (c # takeWhile (\<lambda>x. \<not> is_space x) cs)
             # py_split (dropWhile (\<lambda>x. \<not> is_space x) cs))"
  by pat_completeness auto
termination
  by (relation "measure length") (auto simp: length_dropWhile_le less_Suc_eq_le)

definition py_strip :: "string \<Rightarrow> string" where
  "py_strip s = rev (dropWhile is_space (rev (dropWhile is_space s)))"

fun py_join :: "string \<Rightarrow> string list \<Rightarrow> string" where
  "py_join sep [] = []"
| "py_join sep [x] = x"
| "py_join sep (x # y # ys) = x @ sep @ py_join sep (y # ys)"

text \<open>What \<open>str.split()\<close> delivers: non-empty strings without whitespace.\<close>

definition token :: "string \<Rightarrow> bool" where
  "token t = (t \<noteq> [] \<and> (\<forall>c \<in> set t. \<not> is_space c))"

text \<open>
  \<open>' '.join(suite.title.lower().split('(', 1)[0].strip().replace('-', '').split())\<close>
\<close>

definition clean_suite_name :: "string \<Rightarrow> string" where
  "clean_suite_name title =
     py_join '' ''
       (py_split
          (filter (\<lambda>c. c \<noteq> CHR ''-'')
             (py_strip (takeWhile (\<lambda>c. c \<noteq> CHR ''('') (py_lower title)))))"

text \<open>
  The comparison of both matching loops of \<open>update_test_suites_from_pytest\<close>:
  \<open>clean_suite_name == parent_suite.lower()\<close> and \<open>clean_suite_name == suite_name.lower()\<close>.
\<close>

definition title_matches :: "string \<Rightarrow> string \<Rightarrow> bool" where
  "title_matches title name = (clean_suite_name title = py_lower name)"

text \<open>
  The comparison as the specification words it, with the normalization applied to the
  remote title and to the local name alike.
\<close>

definition spec_title_matches :: "string \<Rightarrow> string \<Rightarrow> bool" where
  "spec_title_matches title name = (clean_suite_name title = clean_suite_name name)"

subsection \<open>The remote service and the session\<close>

text \<open>
  A parameter map of a test case is a \<open>dict\<close> from a key to a list of values; a suite
  id is an \<open>int\<close> or Python's \<open>None\<close>.
\<close>

type_synonym params = "(string \<times> string list) list"
type_synonym suite_id = "int option"

datatype test_case = TestCase (case_ident: int) (case_suite_id: suite_id) (case_params: params)

datatype suite = Suite (suite_ident: int) (title: string)

datatype update_dict =
    ParamsUpdate params
  | SuiteIdUpdate suite_id
  | FieldsUpdate "(string \<times> json) list"

text \<open>
  The requests the wrappers send, all under \<open>self.project_code\<close>. A response is an
  object of the client; the constructors say what the code can read from its \<open>result\<close>.
  Reading \<open>result.id\<close> or \<open>result.params\<close> from a response that does not carry it
  raises \<open>AttributeError\<close>.
\<close>

datatype request =
    GetCase int
  | GetCases int int
  | GetSuites int int
  | CreateSuite string suite_id
  | UpdateSuite int "(string \<times> json) list"
  | CreateCase "(string \<times> json) list"
  | UpdateCase int update_dict
  | DeleteCase int
  | CreateRun "(string \<times> json) list"
  | CompleteRun int
  | GetRun int
  | CreateMilestone string

datatype response =
    Plain
  | WithId int
  | WithCase test_case
  | SuitePage "suite list" int
  | CasePage "test_case list" int

datatype level = ERROR | WARNING | INFO | DEBUG

text \<open>
  The client is a function from the state of the remote service and a request to the
  outcome of the call (a response, or the exception the client raises) and the new
  state. A session records, beside that state, every call made with its outcome, in
  order, and the lines given to the logger.
\<close>

type_synonym 'w api = "'w \<Rightarrow> request \<Rightarrow> (py_error + response) \<times> 'w"

record 'w session =
  world :: 'w
  calls :: "(request \<times> (py_error + response)) list"
  logged :: "(level \<times> string) list"

definition call :: "'w api \<Rightarrow> request \<Rightarrow> 'w session \<Rightarrow> (py_error + response) \<times> 'w session" where
  "call api req s =
     (case api (world s) req of
        (r, w) \<Rightarrow> (r, s\<lparr>world := w, calls := calls s @ [(req, r)]\<rparr>))"

definition logger :: "level \<Rightarrow> string \<Rightarrow> 'w session \<Rightarrow> 'w session" where
  "logger lvl msg s = s\<lparr>logged := logged s @ [(lvl, msg)]\<rparr>"

subsection \<open>Milestone, run and case wrappers\<close>

text \<open>
  \<open>try: return <call> except ApiException as e: logger.error(...)\<close>: the response is
  returned; an \<open>ApiException\<close> is logged and the function falls off its end, returning
  \<open>None\<close>; any other exception leaves the function.
\<close>

definition except_ApiException ::
  "string \<Rightarrow> (py_error + response) \<times> 'w session \<Rightarrow> (py_error + response option) \<times> 'w session"
where
  "except_ApiException msg r =
     (case r of
        (Inr v, s) \<Rightarrow> (Inr (Some v), s)
      | (Inl ApiException, s) \<Rightarrow> (Inr None, logger ERROR msg s)
      | (Inl e, s) \<Rightarrow> (Inl e, s))"

definition get_test_case ::
  "'w api \<Rightarrow> int \<Rightarrow> 'w session \<Rightarrow> (py_error + response option) \<times> 'w session" where
  "get_test_case api case_id s =
     (if case_id = 0 then (Inl AssertionError, s)
      else except_ApiException ''Exception while trying to get Qase test case''
             (call api (GetCase case_id) s))"

text \<open>Python's truth value of a JSON value, for \<open>{k: v for k, v in kwargs.items() if v}\<close>.\<close>

fun truthy :: "json \<Rightarrow> bool" where
  "truthy JNull = False"
| "truthy (JBool b) = b"
| "truthy (JInt i) = (i \<noteq> 0)"
| "truthy (JStr s) = (s \<noteq> [])"
| "truthy (JArr xs) = (xs \<noteq> [])"
| "truthy (JObj kvs) = (kvs \<noteq> [])"

definition dict_update :: "(string \<times> json) list \<Rightarrow> (string \<times> json) list \<Rightarrow> (string \<times> json) list"
where
  "dict_update args kvs = fold (\<lambda>(k, v) d. AList.update k v d) kvs args"

definition create_qase_test_run ::
  "'w api \<Rightarrow> string \<Rightarrow> json option \<Rightarrow> (string \<times> json) list \<Rightarrow> 'w session
     \<Rightarrow> (py_error + response option) \<times> 'w session" where
  "create_qase_test_run api run_title custom_fields kwargs s =
     (let args = [(''title'', JStr run_title), (''is_autotest'', JBool True)];
          args = (case custom_fields of
                    None \<Rightarrow> args
                  | Some cf \<Rightarrow> AList.update ''custom_field'' cf args);
          args = dict_update args (filter (\<lambda>(k, v). truthy v) kwargs)
      in except_ApiException ''Exception while trying to create a Qase run''
           (call api (CreateRun args) s))"

definition complete_qase_test_run ::
  "'w api \<Rightarrow> int \<Rightarrow> 'w session \<Rightarrow> (py_error + response option) \<times> 'w session" where
  "complete_qase_test_run api run_id s =
     except_ApiException ''Exception while trying to complete a Qase run''
       (call api (CompleteRun run_id)
          (logger INFO ''Attempting to complete a Qase test run'' s))"

definition delete_a_test_case ::
  "'w api \<Rightarrow> int \<Rightarrow> 'w session \<Rightarrow> (py_error + response option) \<times> 'w session" where
  "delete_a_test_case api case_id s =
     except_ApiException ''Exception while trying to delete a Qase test case''
       (call api (DeleteCase case_id) s)"

definition update_a_test_case ::
  "'w api \<Rightarrow> int \<Rightarrow> update_dict \<Rightarrow> 'w session \<Rightarrow> (py_error + response option) \<times> 'w session"
where
  "update_a_test_case api case_id upd s =
     except_ApiException ''Exception while trying to update a Qase test case''
       (call api (UpdateCase case_id upd) s)"

definition create_test_case ::
  "'w api \<Rightarrow> (string \<times> json) list \<Rightarrow> 'w session \<Rightarrow> (py_error + response option) \<times> 'w session"
where
  "create_test_case api payload_dict s =
     except_ApiException ''Exception while trying to create a new Qase test case''
       (call api (CreateCase payload_dict) s)"

text \<open>\<open>res.result.id\<close>\<close>

definition result_id :: "response \<Rightarrow> py_error + int" where
  "result_id r = (case r of WithId i \<Rightarrow> Inr i | _ \<Rightarrow> Inl AttributeError)"

text \<open>\<open>create_milestone\<close> has no \<open>try\<close>: whatever the call raises leaves the function.\<close>

definition create_milestone ::
  "'w api \<Rightarrow> string \<Rightarrow> 'w session \<Rightarrow> (py_error + int) \<times> 'w session" where
  "create_milestone api milestone_title s =
     (case call api (CreateMilestone milestone_title) s of
        (Inl e, s1) \<Rightarrow> (Inl e, s1)
      | (Inr res, s1) \<Rightarrow> (result_id res, s1))"

text \<open>
  \<open>get_run\<close>: the call is made only \<open>if run_id\<close>; otherwise the function falls off its
  end.
\<close>

definition get_run ::
  "'w api \<Rightarrow> int \<Rightarrow> 'w session \<Rightarrow> (py_error + response option) \<times> 'w session" where
  "get_run api run_id s =
     (if run_id \<noteq> 0 then
        except_ApiException ''Exception while trying to get a Qase run''
          (call api (GetRun run_id) s)
      else (Inr None, s))"

text \<open>
  \<open>create_qase_suite\<close> returns \<open>api_response.result.id\<close>, read inside the \<open>try\<close>, or
  \<open>None\<close> after an \<open>ApiException\<close>. \<open>parent_id\<close> enters the payload only when it is
  truthy. Further keyword arguments are forwarded to the payload as they are and are
  not part of the request here.
\<close>

definition falsy :: "suite_id \<Rightarrow> bool" where
  "falsy i = (i = None \<or> i = Some 0)"

definition create_qase_suite ::
  "'w api \<Rightarrow> string \<Rightarrow> suite_id \<Rightarrow> 'w session \<Rightarrow> (py_error + suite_id) \<times> 'w session" where
  "create_qase_suite api suite_name parent_id s =
     (case call api (CreateSuite suite_name (if falsy parent_id then None else parent_id)) s of
        (Inr res, s1) \<Rightarrow>
          (case result_id res of Inl e \<Rightarrow> (Inl e, s1) | Inr i \<Rightarrow> (Inr (Some i), s1))
      | (Inl ApiException, s1) \<Rightarrow>
          (Inr None, logger ERROR ''Exception while trying to create a Qase suite'' s1)
      | (Inl e, s1) \<Rightarrow> (Inl e, s1))"

definition update_suite ::
  "'w api \<Rightarrow> int \<Rightarrow> (string \<times> json) list \<Rightarrow> 'w session
     \<Rightarrow> (py_error + response option) \<times> 'w session" where
  "update_suite api sid kwargs s =
     except_ApiException ''Exception while trying to update a Qase suite''
       (call api (UpdateSuite sid kwargs) s)"

text \<open>
  \<open>get_suites\<close> and \<open>get_cases\<close>: the paginated fetch over the client's list calls,
  with the room \<open>depth\<close> that the stack has where they are called.
\<close>

definition get_suites ::
  "'w api \<Rightarrow> nat \<Rightarrow> 'w session \<Rightarrow> (py_error + suite list) \<times> 'w session" where
  "get_suites api depth s =
     get_all_instances depth
       (\<lambda>limit offset s0.
           case call api (GetSuites limit offset) s0 of
             (Inl e, s1) \<Rightarrow> (Inl e, s1)
           | (Inr (SuitePage xs n), s1) \<Rightarrow> (Inr (Result xs n), s1)
           | (Inr _, s1) \<Rightarrow> (Inr NoResult, s1))
       100 0 s"

definition get_cases ::
  "'w api \<Rightarrow> nat \<Rightarrow> 'w session \<Rightarrow> (py_error + test_case list) \<times> 'w session" where
  "get_cases api depth s =
     get_all_instances depth
       (\<lambda>limit offset s0.
           case call api (GetCases limit offset) s0 of
             (Inl e, s1) \<Rightarrow> (Inl e, s1)
           | (Inr (CasePage xs n), s1) \<Rightarrow> (Inr (Result xs n), s1)
           | (Inr _, s1) \<Rightarrow> (Inr NoResult, s1))
       100 0 s"

subsection \<open>Case field editor\<close>

text \<open>\<open>origin.result.params.to_dict()\<close>\<close>

definition params_of :: "response \<Rightarrow> py_error + params" where
  "params_of origin = (case origin of WithCase c \<Rightarrow> Inr (case_params c) | _ \<Rightarrow> Inl AttributeError)"

text \<open>A \<open>for\<close> loop whose body may raise: the exception ends the loop and the function.\<close>

fun for_each :: "('a \<Rightarrow> 's \<Rightarrow> (py_error + unit) \<times> 's) \<Rightarrow> 'a list \<Rightarrow> 's \<Rightarrow> (py_error + unit) \<times> 's"
where
  "for_each body [] s = (Inr (), s)"
| "for_each body (x # xs) s =
     (case body x s of
        (Inl e, s1) \<Rightarrow> (Inl e, s1)
      | (Inr u, s1) \<Rightarrow> for_each body xs s1)"

text \<open>
  The inner loop over \<open>unwanted_values\<close> for one key. \<open>origin_params[unwanted_key]\<close> is
  evaluated anew for every value, and raises \<open>KeyError\<close> once the key has been deleted.
  \<open>list.remove\<close> takes out the first occurrence. The flag is \<open>unwanted_found\<close>
  (\<open>add_wanted_params\<close> in the replace operation).
\<close>

fun remove_values :: "string \<Rightarrow> string list \<Rightarrow> params \<times> bool \<Rightarrow> py_error + params \<times> bool" where
  "remove_values k [] st = Inr st"
| "remove_values k (v # vs) (m, found) =
     (case map_of m k of
        None \<Rightarrow> Inl KeyError
      | Some xs \<Rightarrow>
          if v \<in> set xs then
            (let xs' = remove1 v xs;
                 m' = AList.update k xs' m;
                 m'' = (if xs' = [] then AList.delete k m' else m')
             in remove_values k vs (m'', True))
          else remove_values k vs (m, found))"

fun remove_unwanted :: "params \<Rightarrow> params \<times> bool \<Rightarrow> py_error + params \<times> bool" where
  "remove_unwanted [] st = Inr st"
| "remove_unwanted ((k, vs) # rest) (m, found) =
     (if map_of m k \<noteq> None then
        (case remove_values k vs (m, found) of
           Inl e \<Rightarrow> Inl e
         | Inr st' \<Rightarrow> remove_unwanted rest st')
      else remove_unwanted rest (m, found))"

text \<open>
  The loop that adds parameters. \<open>list(set(xs))\<close> keeps one copy of every element in
  an order Python does not fix: the parameter \<open>list_set\<close>.
\<close>

fun add_params :: "(string list \<Rightarrow> string list) \<Rightarrow> params \<Rightarrow> params \<Rightarrow> params" where
  "add_params list_set [] m = m"
| "add_params list_set ((k, vs) # rest) m =
     add_params list_set rest
       (case map_of m k of
          None \<Rightarrow> AList.update k vs m
        | Some old \<Rightarrow> AList.update k (list_set (old @ vs)) m)"

text \<open>The bodies of the three loops over \<open>cases\<close>, and the loops.\<close>

definition remove_unwanted_params_from_case ::
  "'w api \<Rightarrow> params \<Rightarrow> int \<Rightarrow> 'w session \<Rightarrow> (py_error + unit) \<times> 'w session" where
  "remove_unwanted_params_from_case api unwanted_params case_id s =
     (case get_test_case api case_id s of
        (Inl e, s1) \<Rightarrow> (Inl e, s1)
      | (Inr None, s1) \<Rightarrow> (Inr (), s1)
      | (Inr (Some origin), s1) \<Rightarrow>
          (case params_of origin of
             Inl e \<Rightarrow> (Inl e, s1)
           | Inr origin_params \<Rightarrow>
               (case remove_unwanted unwanted_params (origin_params, False) of
                  Inl e \<Rightarrow> (Inl e, s1)
                | Inr (new_params, unwanted_found) \<Rightarrow>
                    if unwanted_found then
                      (case update_a_test_case api case_id (ParamsUpdate new_params)
                              (logger INFO ''Removing params'' s1) of
                         (Inl e, s2) \<Rightarrow> (Inl e, s2)
                       | (Inr r, s2) \<Rightarrow> (Inr (), s2))
                    else (Inr (), s1))))"

definition qase_remove_unwanted_params_from_cases ::
  "'w api \<Rightarrow> int list \<Rightarrow> params \<Rightarrow> 'w session \<Rightarrow> (py_error + unit) \<times> 'w session" where
  "qase_remove_unwanted_params_from_cases api cases unwanted_params s =
     for_each (remove_unwanted_params_from_case api unwanted_params) cases s"



definition replace_params_in_case ::
  "'w api \<Rightarrow> (string list \<Rightarrow> string list) \<Rightarrow> params \<Rightarrow> params \<Rightarrow> int \<Rightarrow> 'w session
     \<Rightarrow> (py_error + unit) \<times> 'w session" where
  "replace_params_in_case api list_set unwanted_params wanted_params case_id s =
     (case get_test_case api case_id s of
        (Inl e, s1) \<Rightarrow> (Inl e, s1)
      | (Inr None, s1) \<Rightarrow> (Inr (), s1)
      | (Inr (Some origin), s1) \<Rightarrow>
          (case params_of origin of
             Inl e \<Rightarrow> (Inl e, s1)
           | Inr origin_params \<Rightarrow>
               (case remove_unwanted unwanted_params (origin_params, False) of
                  Inl e \<Rightarrow> (Inl e, s1)
                | Inr (removed, add_wanted_params) \<Rightarrow>
                    if add_wanted_params then
                      (case update_a_test_case api case_id
                              (ParamsUpdate (add_params list_set wanted_params removed))
                              (logger INFO ''Updating params''
                                 (logger INFO ''Removing params'' s1)) of
                         (Inl e, s2) \<Rightarrow> (Inl e, s2)
                       | (Inr r, s2) \<Rightarrow> (Inr (), s2))
                    else (Inr (), s1))))"

definition replace_params_in_cases ::
  "'w api \<Rightarrow> (string list \<Rightarrow> string list) \<Rightarrow> int list \<Rightarrow> params \<Rightarrow> params \<Rightarrow> 'w session
     \<Rightarrow> (py_error + unit) \<times> 'w session" where
  "replace_params_in_cases api list_set cases unwanted_params wanted_params s =
     for_each (replace_params_in_case api list_set unwanted_params wanted_params) cases s"

text \<open>
  A listed unwanted pair occurs in a parameter map: some listed key is in the map and
  one of the values listed for it is in that key's list.
\<close>

definition unwanted_occurs :: "params \<Rightarrow> params \<Rightarrow> bool" where
  "unwanted_occurs unwanted_params m =
     (\<exists>(k, vs) \<in> set unwanted_params. \<exists>v \<in> set vs.
        case map_of m k of None \<Rightarrow> False | Some xs \<Rightarrow> v \<in> set xs)"

text \<open>A parameter map read as a mapping from keys to sets of values.\<close>

definition value_sets :: "params \<Rightarrow> string \<Rightarrow> string set option" where
  "value_sets m k = map_option set (map_of m k)"


subsection \<open>Suite synchronizer (\<open>QaseIO.update_test_suites_from_pytest\<close>)\<close>

text \<open>
  A file of the local index: the value under \<open>'Suite Name'\<close> when the key is there,
  and under \<open>'Test Cases'\<close> the list of test cases, each with its \<open>'Qase ID'\<close> when it
  has one.
\<close>

record test_file =
  file_suite_name :: "string option"
  file_test_cases :: "int option list option"

text \<open>
  The variables of the run. \<open>qase_new_dict\<close> maps a parent-suite name to a dict that
  holds the parent's id under the key \<open>'id'\<close> and, under each leaf-suite name,
  \<open>{'cases': [...], 'id': ...}\<close>. Here the inner dict is the pair of the value under
  \<open>'id'\<close> and the association list of the other keys; the places where a leaf name
  is itself \<open>'id'\<close> are written out.
\<close>

type_synonym leaf_dict = "(string \<times> int list \<times> suite_id) list"

record 'w sync =
  sess :: "'w session"
  known_suites :: "(string \<times> suite_id) list"
  qase_suites :: "suite list"
  qase_new_dict :: "(string \<times> suite_id \<times> leaf_dict) list"

text \<open>Sequencing of steps that may raise.\<close>

definition then_do ::
  "(py_error + 'a) \<times> 's \<Rightarrow> ('a \<Rightarrow> 's \<Rightarrow> (py_error + 'b) \<times> 's) \<Rightarrow> (py_error + 'b) \<times> 's" where
  "then_do r f =
     (case r of
        (Inl e, s) \<Rightarrow> (Inl e, s)
      | (Inr v, s) \<Rightarrow> f v s)"

text \<open>
  The matching loop: the id of the first remote suite whose cleaned title equals the
  lower-cased name, or \<open>0\<close>.
\<close>

definition find_suite_id :: "suite list \<Rightarrow> string \<Rightarrow> int" where
  "find_suite_id suites name =
     (case find (\<lambda>s. title_matches (title s) name) suites of
        None \<Rightarrow> 0
      | Some s \<Rightarrow> suite_ident s)"

text \<open>
  \<open>suite_id = self.create_qase_suite(...); logger.info(...); qase_suites = self.get_suites()\<close>.
  \<open>depth\<close> is the room that the stack has in the body of
  \<open>update_test_suites_from_pytest\<close>, where every \<open>get_suites\<close> and \<open>get_cases\<close> of the
  run is called.
\<close>

definition create_and_refresh ::
  "'w api \<Rightarrow> nat \<Rightarrow> string \<Rightarrow> suite_id \<Rightarrow> 'w sync \<Rightarrow> (py_error + suite_id) \<times> 'w sync" where
  "create_and_refresh api depth name parent_id st =
     (case create_qase_suite api name parent_id (sess st) of
        (Inl e, s1) \<Rightarrow> (Inl e, st\<lparr>sess := s1\<rparr>)
      | (Inr new_id, s1) \<Rightarrow>
          (case get_suites api depth (logger INFO ''New suite created'' s1) of
             (Inl e, s2) \<Rightarrow> (Inl e, st\<lparr>sess := s2\<rparr>)
           | (Inr suites, s2) \<Rightarrow> (Inr new_id, st\<lparr>sess := s2, qase_suites := suites\<rparr>)))"

definition resolve_parent ::
  "'w api \<Rightarrow> nat \<Rightarrow> suite_id \<Rightarrow> bool \<Rightarrow> string \<Rightarrow> 'w sync \<Rightarrow> (py_error + unit) \<times> 'w sync"
where
  "resolve_parent api depth root_parent_suite assert_parent_suite parent_suite st =
     (if map_of (qase_new_dict st) parent_suite \<noteq> None then (Inr (), st)
      else
        then_do
          (if assert_parent_suite then
             (if map_of (known_suites st) parent_suite = None
              then (Inl AssertionError, st) else (Inr (), st))
           else if find_suite_id (qase_suites st) parent_suite = 0 then
             then_do (create_and_refresh api depth parent_suite root_parent_suite st)
               (\<lambda>new_id st1.
                  (Inr (), st1\<lparr>known_suites :=
                                 AList.update parent_suite new_id (known_suites st1)\<rparr>))
           else (Inr (), st))
          (\<lambda>u st1.
             case map_of (known_suites st1) parent_suite of
               None \<Rightarrow> (Inl KeyError, st1)
             | Some parent_suite_id \<Rightarrow>
                 (Inr (), st1\<lparr>qase_new_dict :=
                   AList.update parent_suite (parent_suite_id, []) (qase_new_dict st1)\<rparr>)))"

definition resolve_leaf ::
  "'w api \<Rightarrow> nat \<Rightarrow> string \<Rightarrow> string \<Rightarrow> 'w sync \<Rightarrow> (py_error + unit) \<times> 'w sync" where
  "resolve_leaf api depth parent_suite suite_name st =
     (case map_of (qase_new_dict st) parent_suite of
        None \<Rightarrow> (Inl KeyError, st)
      | Some (parent_id, leaves) \<Rightarrow>
          if suite_name = ''id'' \<or> map_of leaves suite_name \<noteq> None then (Inr (), st)
          else
            then_do
              (let suite_id = (case map_of (known_suites st) suite_name of
                                 Some known_id \<Rightarrow> known_id
                               | None \<Rightarrow> Some (find_suite_id (qase_suites st) suite_name))
               in if falsy suite_id then create_and_refresh api depth suite_name parent_id st
                  else (Inr suite_id, st))
              (\<lambda>suite_id st1.
                 (Inr (), st1\<lparr>qase_new_dict :=
                   AList.update parent_suite
                     (parent_id, AList.update suite_name ([], suite_id) leaves)
                     (qase_new_dict st1)\<rparr>)))"

text \<open>
  The search for the remote case with the file's Qase id, which stops at the first
  hit, and the move or the warning.
\<close>

definition check_case ::
  "'w api \<Rightarrow> bool \<Rightarrow> test_case list \<Rightarrow> suite_id \<Rightarrow> int \<Rightarrow> 'w session
     \<Rightarrow> (py_error + unit) \<times> 'w session" where
  "check_case api move_cases qase_cases leaf_id qase_id s =
     (case find (\<lambda>c. case_ident c = qase_id) qase_cases of
        None \<Rightarrow> (Inr (), s)
      | Some qase_case \<Rightarrow>
          if case_suite_id qase_case \<noteq> leaf_id then
            (if move_cases then
               (case update_a_test_case api qase_id (SuiteIdUpdate leaf_id)
                       (logger INFO ''Moving Test case'' s) of
                  (Inl e, s1) \<Rightarrow> (Inl e, s1)
                | (Inr r, s1) \<Rightarrow> (Inr (), s1))
             else (Inr (), logger WARNING ''Test case needs to be moved'' s))
          else (Inr (), s))"

text \<open>
  The body of the loop over \<open>test_file['Test Cases']\<close>. With the leaf name \<open>'id'\<close>,
  \<open>qase_new_dict[parent_suite][suite_name]\<close> is the parent's id, and its subscript
  \<open>['cases']\<close> raises \<open>TypeError\<close>.
\<close>

definition record_case ::
  "'w api \<Rightarrow> bool \<Rightarrow> test_case list \<Rightarrow> string \<Rightarrow> string \<Rightarrow> int option \<Rightarrow> 'w sync
     \<Rightarrow> (py_error + unit) \<times> 'w sync" where
  "record_case api move_cases qase_cases parent_suite suite_name test_case st =
     (case test_case of
        None \<Rightarrow> (Inr (), st)
      | Some qase_id \<Rightarrow>
          if qase_id = 0 then (Inr (), st)
          else
            (case map_of (qase_new_dict st) parent_suite of
               None \<Rightarrow> (Inl KeyError, st)
             | Some (parent_id, leaves) \<Rightarrow>
                 if suite_name = ''id'' then (Inl TypeError, st)
                 else
                   (case map_of leaves suite_name of
                      None \<Rightarrow> (Inl KeyError, st)
                    | Some (case_ids, leaf_id) \<Rightarrow>
                        (case check_case api move_cases qase_cases leaf_id qase_id (sess st) of
                           (r, s1) \<Rightarrow>
                             (r, st\<lparr>sess := s1,
                                    qase_new_dict :=
                                      AList.update parent_suite
                                        (parent_id,
                                         AList.update suite_name (case_ids @ [qase_id], leaf_id)
                                           leaves)
                                        (qase_new_dict st)\<rparr>)))))"

text \<open>
  \<open>name_split = test_file.get('Suite Name', '').split()\<close>, and the body of the loop
  over the files: \<open>name_split[1]\<close> is the parent-suite name and
  raises \<open>IndexError\<close> on a list of one token; the leaf-suite name is
  \<open>' '.join(name_split[1:])\<close>.
\<close>

definition name_split :: "test_file \<Rightarrow> string list" where
  "name_split test_file =
     py_split (case file_suite_name test_file of None \<Rightarrow> [] | Some n \<Rightarrow> n)"

definition sync_file ::
  "'w api \<Rightarrow> nat \<Rightarrow> bool \<Rightarrow> suite_id \<Rightarrow> bool \<Rightarrow> test_case list \<Rightarrow> test_file \<Rightarrow> 'w sync
     \<Rightarrow> (py_error + unit) \<times> 'w sync" where
  "sync_file api depth move_cases root_parent_suite assert_parent_suite qase_cases test_file st =
     (case name_split test_file of
        [] \<Rightarrow> (Inr (), st)
      | [t] \<Rightarrow> (Inl IndexError, st)
      | t # parent_suite # rest \<Rightarrow>
          (let suite_name = py_join '' '' (parent_suite # rest) in
           then_do
             (resolve_parent api depth root_parent_suite assert_parent_suite parent_suite st)
             (\<lambda>u st1.
                then_do (resolve_leaf api depth parent_suite suite_name st1)
                  (\<lambda>u st2.
                     case file_test_cases test_file of
                       None \<Rightarrow> (Inl KeyError, st2)
                     | Some test_cases \<Rightarrow>
                         for_each (record_case api move_cases qase_cases parent_suite suite_name)
                           test_cases st2))))"

fun sync_files ::
  "'w api \<Rightarrow> nat \<Rightarrow> bool \<Rightarrow> suite_id \<Rightarrow> bool \<Rightarrow> test_case list \<Rightarrow> test_file list \<Rightarrow> 'w sync
     \<Rightarrow> (py_error + unit) \<times> 'w sync" where
  "sync_files api depth move_cases root_parent_suite assert_parent_suite qase_cases [] st =
     (Inr (), st)"
| "sync_files api depth move_cases root_parent_suite assert_parent_suite qase_cases (f # fs) st =
     then_do
       (sync_file api depth move_cases root_parent_suite assert_parent_suite qase_cases f st)
       (\<lambda>u st1. sync_files api depth move_cases root_parent_suite assert_parent_suite
                   qase_cases fs st1)"

text \<open>
  The whole operation, on the index \<open>full_index\<close> that \<open>get_pytest_files_index\<close>
  delivers. It returns \<open>qase_new_dict\<close>; the final variables come with it in either
  outcome, so that the calls made before an exception stay visible.
\<close>

definition update_test_suites_from_pytest ::
  "'w api \<Rightarrow> nat \<Rightarrow> test_file list \<Rightarrow> bool \<Rightarrow> suite_id \<Rightarrow> (string \<times> suite_id) list option
     \<Rightarrow> bool \<Rightarrow> 'w session
     \<Rightarrow> (py_error + (string \<times> suite_id \<times> leaf_dict) list) \<times> 'w sync" where
  "update_test_suites_from_pytest api depth full_index move_cases root_parent_suite known
       assert_parent_suite s =
     (let st0 = \<lparr>sess = s,
                 known_suites = (case known of None \<Rightarrow> [] | Some ks \<Rightarrow> ks),
                 qase_suites = [], qase_new_dict = []\<rparr>
      in case get_suites api depth s of
           (Inl e, s1) \<Rightarrow> (Inl e, st0\<lparr>sess := s1\<rparr>)
         | (Inr suites, s1) \<Rightarrow>
             (case get_cases api depth s1 of
                (Inl e, s2) \<Rightarrow> (Inl e, st0\<lparr>sess := s2, qase_suites := suites\<rparr>)
              | (Inr qase_cases, s2) \<Rightarrow>
                  (case sync_files api depth move_cases root_parent_suite assert_parent_suite
                          qase_cases full_index
                          (st0\<lparr>sess := s2, qase_suites := suites\<rparr>) of
                     (Inl e, st) \<Rightarrow> (Inl e, st)
                   | (Inr u, st) \<Rightarrow> (Inr (qase_new_dict st), st))))"

subsection \<open>A simulated remote service\<close>

text \<open>
  A remote service for the concrete instances: it keeps the suites and the cases of
  the project, gives a new suite the next free id, and answers \<open>404\<close> (an
  \<open>ApiException\<close>) for a case it does not have. \<open>down_api\<close> is a service that fails
  every call.
\<close>

record remote =
  remote_suites :: "suite list"
  remote_cases :: "test_case list"
  next_id :: int

fun sim_api :: "remote api" where
  "sim_api w (GetSuites limit offset) =
     (Inr (SuitePage (take (nat limit) (drop (nat offset) (remote_suites w)))
             (int (length (remote_suites w)))), w)"
| "sim_api w (GetCases limit offset) =
     (Inr (CasePage (take (nat limit) (drop (nat offset) (remote_cases w)))
             (int (length (remote_cases w)))), w)"
| "sim_api w (CreateSuite name parent_id) =
     (Inr (WithId (next_id w)),
      w\<lparr>remote_suites := remote_suites w @ [Suite (next_id w) name],
        next_id := next_id w + 1\<rparr>)"
| "sim_api w (GetCase i) =
     (case find (\<lambda>c. case_ident c = i) (remote_cases w) of
        None \<Rightarrow> (Inl ApiException, w)
      | Some c \<Rightarrow> (Inr (WithCase c), w))"
| "sim_api w (UpdateCase i upd) =
     (case find (\<lambda>c. case_ident c = i) (remote_cases w) of
        None \<Rightarrow> (Inl ApiException, w)
      | Some c \<Rightarrow>
          (Inr (WithId i),
           w\<lparr>remote_cases :=
               map (\<lambda>c. if case_ident c = i then
                           (case upd of
                              ParamsUpdate p \<Rightarrow> TestCase i (case_suite_id c) p
                            | SuiteIdUpdate sid \<Rightarrow> TestCase i sid (case_params c)
                            | FieldsUpdate fs \<Rightarrow> c)
                         else c)
                 (remote_cases w)\<rparr>))"
| "sim_api w req = (Inr Plain, w)"

definition down_api :: "unit api" where
  "down_api w req = (Inl ApiException, w)"

definition new_session :: "'w \<Rightarrow> 'w session" where
  "new_session w = \<lparr>world = w, calls = [], logged = []\<rparr>"

text \<open>Concrete states for the instances below.\<close>

definition empty_remote :: remote where
  "empty_remote = \<lparr>remote_suites = [], remote_cases = [], next_id = 1\<rparr>"

definition start_sync :: "remote sync" where
  "start_sync =
     \<lparr>sess = new_session empty_remote, known_suites = [], qase_suites = [], qase_new_dict = []\<rparr>"

definition demo_remote :: remote where
  "demo_remote =
     \<lparr>remote_suites = [],
      remote_cases = [TestCase 5 None [(''os'', [''mac''])],
                      TestCase 6 None [(''os'', [''win''])],
                      TestCase 7 None [(''os'', [''win'', ''linux''])]],
      next_id = 10\<rparr>"

subsection \<open>The calls of a run and the ids in its index\<close>

text \<open>
  A create call in the record of calls, with the name it carries and the id that
  \<open>create_qase_suite\<close> hands back for it: \<open>result.id\<close> of the response, or \<open>None\<close>
  when the call raised. \<open>creations\<close> lists them in order.
\<close>

type_synonym trace = "(request \<times> (py_error + response)) list"

definition created_id :: "py_error + response \<Rightarrow> suite_id" where
  "created_id r = (case r of Inr (WithId i) \<Rightarrow> Some i | _ \<Rightarrow> None)"

fun created :: "request \<times> (py_error + response) \<Rightarrow> (string \<times> suite_id) option" where
  "created (CreateSuite name parent_id, r) = Some (name, created_id r)"
| "created c = None"

fun creations :: "trace \<Rightarrow> (string \<times> suite_id) list" where
  "creations [] = []"
| "creations (c # tr) = (case created c of None \<Rightarrow> creations tr | Some x \<Rightarrow> x # creations tr)"















section \<open>Paginated fetch\<close>

lemma pages_from_step:
  assumes "1 \<le> P" and "P + off < N"
  shows "pages_from P N off = Suc (pages_from P N (off + P))"
proof -
  have "(N - off + P - 1) div P = (N - (off + P) + P - 1 + 1 * P) div P"
    by (simp add: algebra_simps)
  also have "\<dots> = (N - (off + P) + P - 1) div P + 1"
    using assms by (simp only: div_mult_self1[of P "N - (off + P) + P - 1" 1])
  finally show ?thesis
    using assms by (auto simp: pages_from_def pos_imp_zdiv_nonneg_iff nat_add_distrib)
qed

lemma pages_from_last:
  assumes "1 \<le> P" and "\<not> P + off < N"
  shows "pages_from P N off = 1"
proof (cases "N \<le> off")
  case True
  then show ?thesis by (simp add: pages_from_def)
next
  case False
  have "(N - off + P - 1) div P = 1"
    using assms False by (intro int_div_pos_eq[where r = "N - off - 1"]) simp_all
  then show ?thesis using False by (simp add: pages_from_def)
qed

lemma pages_from_zero:
  assumes "1 \<le> P"
  shows "pages_from P (int (length xs)) 0 =
           (if xs = [] then 1 else nat \<lceil>real (length xs) / real_of_int P\<rceil>)"
proof (cases "xs = []")
  case True
  then show ?thesis by (simp add: pages_from_def)
next
  case False
  define N where "N = int (length xs)"
  have N: "0 < N" using False by (simp add: N_def)
  have "\<lceil>real_of_int N / real_of_int P\<rceil> = - (- N div P)"
    by (rule ceiling_divide_eq_div)
  also have "- (- N div P) = (N + P - 1) div P"
  proof -
    define q r where "q = N div P" and "r = N mod P"
    have N_eq: "N = P * q + r" and r: "0 \<le> r" "r < P"
      using assms by (simp_all add: q_def r_def)
    show ?thesis
    proof (cases "r = 0")
      case True
      have "(N + P - 1) div P = q"
        using assms by (intro int_div_pos_eq[where r = "P - 1"]) (simp_all add: N_eq True)
      moreover have "- N div P = - q"
        using assms by (intro int_div_pos_eq[where r = 0]) (simp_all add: N_eq True)
      ultimately show ?thesis by simp
    next
      case False
      have "(N + P - 1) div P = q + 1"
        using assms r False
        by (intro int_div_pos_eq[where r = "r - 1"]) (simp_all add: N_eq algebra_simps)
      moreover have "- N div P = - q - 1"
        using assms r False
        by (intro int_div_pos_eq[where r = "P - r"]) (simp_all add: N_eq algebra_simps)
      ultimately show ?thesis by simp
    qed
  qed
  finally show ?thesis using False N by (simp add: pages_from_def N_def)
qed

lemma pages_from_pos:
  assumes "1 \<le> P"
  shows "1 \<le> pages_from P N off"
proof (cases "P + off < N")
  case True
  from pages_from_step[OF assms True] show ?thesis by simp
next
  case False
  from pages_from_last[OF assms False] show ?thesis by simp
qed

text \<open>
  From any offset, with room for \<open>depth\<close> nested activations: when the windows still to
  fetch are at most \<open>depth\<close>, the fetch returns the rest of the entities and issues one
  request per window, at the offsets \<open>off, off + P, off + 2 P, \<dots>\<close>; otherwise it
  raises \<open>RecursionError\<close> after \<open>depth\<close> requests.
\<close>

lemma get_all_instances_paged:
  assumes P: "1 \<le> P" and off: "0 \<le> off"
  shows "get_all_instances depth (paged_remote xs) P off reqs =
           (if pages_from P (int (length xs)) off \<le> depth then
              (Inr (drop (nat off) xs),
               reqs @ map (\<lambda>k. (P, off + int k * P))
                        [0..<pages_from P (int (length xs)) off])
            else
              (Inl RecursionError, reqs @ map (\<lambda>k. (P, off + int k * P)) [0..<depth]))"
  using off
proof (induction depth arbitrary: off reqs)
  case 0
  from pages_from_pos[OF P, of "int (length xs)" off] show ?case by simp
next
  case (Suc depth)
  have mp: "map (\<lambda>k. (P, off + int k * P)) [0..<Suc n] =
            (P, off) # map (\<lambda>k. (P, off + P + int k * P)) [0..<n]" for n
    by (simp add: upt_conv_Cons map_Suc_upt[symmetric] algebra_simps del: upt_Suc)
  show ?case
  proof (cases "P + off < int (length xs)")
    case True
    from Suc.prems P have "0 \<le> off + P" by simp
    note IH = Suc.IH[OF this, of "reqs @ [(P, off)]"]
    have tk: "take (nat P) (drop (nat off) xs) @ drop (nat (off + P)) xs = drop (nat off) xs"
    proof -
      have "nat (off + P) = nat P + nat off"
        using Suc.prems P by (simp add: nat_add_distrib)
      then show ?thesis by (metis append_take_drop_id drop_drop)
    qed
    show ?thesis
      by (simp add: paged_remote_def[of xs P off] True IH pages_from_step[OF P True] mp tk
               del: upt_Suc)
  next
    case False
    have "take (nat P) (drop (nat off) xs) = drop (nat off) xs"
      using False Suc.prems P by auto
    then show ?thesis
      by (simp add: paged_remote_def[of xs P off] False pages_from_last[OF P False])
  qed
qed

text \<open>
  C1, as the claim is worded, fails: against 1200 entities with page size 1 the fetch
  needs 1200 nested activations. The interpreter's default limit of 1000 nested calls
  leaves it fewer than 1000, and even with room for 1000 it raises \<open>RecursionError\<close>,
  after 1000 requests, and returns no list.
\<close>

theorem get_all_instances_recursion_error:
  "fst (get_all_instances 1000 (paged_remote (replicate 1200 (0::nat))) 1 0 []) =
     Inl RecursionError
   \<and> length (snd (get_all_instances 1000 (paged_remote (replicate 1200 (0::nat))) 1 0 [])) =
       1000"
proof -
  have "pages_from 1 (int (length (replicate 1200 (0::nat)))) 0 = 1200"
    by (simp add: pages_from_def)
  with get_all_instances_paged[of 1 0 1000 "replicate 1200 (0::nat)" "[]"]
  show ?thesis by simp
qed

text \<open>
  C1, amended. Against a remote list operation that holds \<open>N\<close> entities \<open>xs\<close> and
  reports \<open>N\<close> as the total, \<open>get_all_instances\<close> with page size \<open>P \<ge> 1\<close>, called
  where the stack has room for \<open>depth\<close> nested activations, needs \<open>ceil(N/P)\<close> of them,
  and one when \<open>N = 0\<close>. When \<open>depth\<close> is at least that number it returns: its result
  is exactly \<open>xs\<close>, in the order of the pages, and the requests it has issued are those
  at the offsets \<open>0, P, 2 P, \<dots>\<close>, \<open>ceil(N/P)\<close> of them, and a single one when
  \<open>N = 0\<close>. Otherwise it raises \<open>RecursionError\<close>, after the first \<open>depth\<close> of these
  requests.
\<close>

theorem get_all_instances_pages:
  assumes "1 \<le> P"
  shows "get_all_instances depth (paged_remote xs) P 0 reqs =
           (if (if xs = [] then 1 else nat \<lceil>real (length xs) / real_of_int P\<rceil>) \<le> depth then
              (Inr xs,
               reqs @ map (\<lambda>k. (P, int k * P))
                 [0..<(if xs = [] then 1 else nat \<lceil>real (length xs) / real_of_int P\<rceil>)])
            else (Inl RecursionError, reqs @ map (\<lambda>k. (P, int k * P)) [0..<depth]))"
  using get_all_instances_paged[OF assms, of 0 depth xs reqs] pages_from_zero[OF assms, of xs]
  by simp

theorem get_all_instances_pages_witness:
  "(1::int) \<le> 3 \<and>
   get_all_instances 1000 (paged_remote [10, 20, 30, 40, 50, 60, 70 :: nat]) 3 0 [] =
     (Inr [10, 20, 30, 40, 50, 60, 70], [(3, 0), (3, 3), (3, 6)])
   \<and> get_all_instances 1000 (paged_remote ([] :: nat list)) 3 0 [] = (Inr [], [(3, 0)])
   \<and> get_all_instances 2 (paged_remote [10, 20, 30, 40, 50, 60, 70 :: nat]) 3 0 [] =
     (Inl RecursionError, [(3, 0), (3, 3)])"
  using get_all_instances_pages[of 3 1000 "[10, 20, 30, 40, 50, 60, 70 :: nat]" "[]"]
        get_all_instances_pages[of 3 1000 "[] :: nat list" "[]"]
        get_all_instances_pages[of 3 2 "[10, 20, 30, 40, 50, 60, 70 :: nat]" "[]"]
  by (simp add: upt_rec)

section \<open>Config store\<close>

lemma on_run_section:
  assumes "run_section doc = Some kvs"
  shows "\<exists>d. on_run f doc = Inr d \<and> run_section d = Some (f kvs)"
proof -
  from assms obtain top where doc: "doc = JObj top"
    by (cases doc) (simp_all add: run_section_def)
  from assms doc obtain testops where t: "map_of top ''testops'' = Some testops"
    by (auto simp: run_section_def split: option.splits)
  from assms doc t obtain tkvs where tt: "testops = JObj tkvs"
    by (cases testops) (simp_all add: run_section_def)
  from assms doc t tt have r: "map_of tkvs ''run'' = Some (JObj kvs)"
    by (auto simp: run_section_def split: option.splits sum.splits json.splits)
  show ?thesis
    by (simp add: on_run_def run_section_def doc t tt r update_conv')
qed

text \<open>Without a run section, the operations raise and change nothing.\<close>

lemma on_run_error:
  assumes "run_section doc = None"
  shows "\<exists>e. on_run f doc = Inl e"
  using assms
  by (auto simp: run_section_def on_run_def split: sum.splits option.splits json.splits)

text \<open>
  The default document has a run section, and every operation keeps it: the documents
  this class makes and writes all have one.
\<close>

lemma default_run_section:
  "run_section (qase_default_config project_code key) = Some [(''complete'', JBool False)]"
  by (simp add: run_section_def qase_default_config_def)

lemma on_run_keeps_section:
  assumes "on_run f doc = Inr d"
  shows "run_section d \<noteq> None"
proof (cases "run_section doc")
  case None
  from on_run_error[OF this, of f] assms show ?thesis by auto
next
  case (Some kvs)
  from on_run_section[OF this, of f] assms show ?thesis by auto
qed

lemma add_run_id_keeps_section:
  assumes "add_run_id parse run_id c = Inr c'"
  shows "run_section (config_obj c') \<noteq> None"
  using assms
  by (auto simp: add_run_id_def write_config_def split: sum.splits dest: on_run_keeps_section)

lemma add_run_title_keeps_section:
  assumes "add_run_title t c = Inr c'"
  shows "run_section (config_obj c') \<noteq> None"
  using assms
  by (auto simp: add_run_title_def write_config_def split: sum.splits dest: on_run_keeps_section)

text \<open>
  C2, as the claim is worded ("invoked in any state"), fails: a \<open>qase.config.json\<close>
  whose \<open>testops\<close> has no \<open>run\<close> is loaded by \<open>__init__\<close> as it is, and on it
  \<open>add_run_id 7\<close> and \<open>add_run_title 'X'\<close> raise \<open>KeyError\<close> at their first
  statement; no document with \<open>run.id = 7\<close> or \<open>run.title = 'X'\<close> comes out, and
  nothing is written.
\<close>

theorem run_ops_without_run_section:
  "config_obj (config_init ''P'' ''K'' (Some (JObj [(''testops'', JObj [(''project'', JStr ''P'')])])))
     = JObj [(''testops'', JObj [(''project'', JStr ''P'')])]
   \<and> add_run_id (\<lambda>s. None) (IdInt 7)
       (config_init ''P'' ''K'' (Some (JObj [(''testops'', JObj [(''project'', JStr ''P'')])])))
     = Inl KeyError
   \<and> add_run_title ''X''
       (config_init ''P'' ''K'' (Some (JObj [(''testops'', JObj [(''project'', JStr ''P'')])])))
     = Inl KeyError"
  by (simp add: config_init_def add_run_id_def add_run_title_def on_run_def)

text \<open>
  C2, amended. In every state whose document has a run section (the default document
  has one, and so has every document that the operations write), \<open>add_run_id i\<close>
  succeeds, and
  the document it leaves (in memory and on disk) has \<open>run.id = i\<close>, no \<open>run.title\<close>
  and \<open>run.complete = false\<close>; \<open>add_run_title t\<close> succeeds and leaves
  \<open>run.title = t\<close>, no \<open>run.id\<close> and \<open>run.complete = true\<close>; so after either the run
  section never holds both an id and a title, and \<open>complete_run\<close> and
  \<open>dont_complete_run\<close> keep that invariant.
\<close>

theorem run_id_xor_title:
  assumes "run_section (config_obj c) = Some run"
  shows "(\<exists>c'. add_run_id parse (IdInt i) c = Inr c'
            \<and> run_key (config_obj c') ''id'' = Some (JInt i)
            \<and> run_key (config_obj c') ''title'' = None
            \<and> run_key (config_obj c') ''complete'' = Some (JBool False)
            \<and> config_file c' = Some (config_obj c')
            \<and> id_xor_title (config_obj c'))
       \<and> (\<exists>c'. add_run_title t c = Inr c'
            \<and> run_key (config_obj c') ''title'' = Some (JStr t)
            \<and> run_key (config_obj c') ''id'' = None
            \<and> run_key (config_obj c') ''complete'' = Some (JBool True)
            \<and> config_file c' = Some (config_obj c')
            \<and> id_xor_title (config_obj c'))
       \<and> (\<exists>c'. complete_run c = Inr c'
            \<and> (id_xor_title (config_obj c) \<longrightarrow> id_xor_title (config_obj c')))
       \<and> (\<exists>c'. dont_complete_run c = Inr c'
            \<and> (id_xor_title (config_obj c) \<longrightarrow> id_xor_title (config_obj c')))"
proof -
  note ors = on_run_section
  have A: "\<exists>c'. add_run_id parse (IdInt i) c = Inr c'
            \<and> run_key (config_obj c') ''id'' = Some (JInt i)
            \<and> run_key (config_obj c') ''title'' = None
            \<and> run_key (config_obj c') ''complete'' = Some (JBool False)
            \<and> config_file c' = Some (config_obj c')
            \<and> id_xor_title (config_obj c')"
  proof -
    from ors[OF assms] obtain d1 where
      d1: "on_run (AList.update ''id'' (JInt i)) (config_obj c) = Inr d1"
          "run_section d1 = Some (AList.update ''id'' (JInt i) run)"
      by blast
    from ors[OF d1(2)] obtain d2 where
      d2: "on_run (AList.delete ''title'') d1 = Inr d2"
          "run_section d2 = Some (AList.delete ''title'' (AList.update ''id'' (JInt i) run))"
      by blast
    from ors[OF d2(2)] obtain d3 where
      d3: "on_run (AList.update ''complete'' (JBool False)) d2 = Inr d3"
          "run_section d3 = Some (AList.update ''complete'' (JBool False)
                                    (AList.delete ''title'' (AList.update ''id'' (JInt i) run)))"
      by blast
    show ?thesis
      by (simp add: add_run_id_def d1 d2 d3 write_config_def run_key_def id_xor_title_def
            update_conv' delete_conv')
  qed
  have B: "\<exists>c'. add_run_title t c = Inr c'
            \<and> run_key (config_obj c') ''title'' = Some (JStr t)
            \<and> run_key (config_obj c') ''id'' = None
            \<and> run_key (config_obj c') ''complete'' = Some (JBool True)
            \<and> config_file c' = Some (config_obj c')
            \<and> id_xor_title (config_obj c')"
  proof -
    from ors[OF assms] obtain d1 where
      d1: "on_run (AList.update ''title'' (JStr t)) (config_obj c) = Inr d1"
          "run_section d1 = Some (AList.update ''title'' (JStr t) run)"
      by blast
    from ors[OF d1(2)] obtain d2 where
      d2: "on_run (AList.delete ''id'') d1 = Inr d2"
          "run_section d2 = Some (AList.delete ''id'' (AList.update ''title'' (JStr t) run))"
      by blast
    from ors[OF d2(2)] obtain d3 where
      d3: "on_run (AList.update ''complete'' (JBool True)) d2 = Inr d3"
          "run_section d3 = Some (AList.update ''complete'' (JBool True)
                                    (AList.delete ''id'' (AList.update ''title'' (JStr t) run)))"
      by blast
    show ?thesis
      by (simp add: add_run_title_def d1 d2 d3 write_config_def run_key_def id_xor_title_def
            update_conv' delete_conv')
  qed
  have C: "\<exists>c'. complete_run c = Inr c'
            \<and> (id_xor_title (config_obj c) \<longrightarrow> id_xor_title (config_obj c'))"
  proof -
    from ors[OF assms] obtain d where
      d: "on_run (AList.update ''complete'' (JBool True)) (config_obj c) = Inr d"
         "run_section d = Some (AList.update ''complete'' (JBool True) run)"
      by blast
    show ?thesis
      by (simp add: complete_run_def d write_config_def run_key_def id_xor_title_def assms
            update_conv')
  qed
  have D: "\<exists>c'. dont_complete_run c = Inr c'
            \<and> (id_xor_title (config_obj c) \<longrightarrow> id_xor_title (config_obj c'))"
  proof -
    from ors[OF assms] obtain d where
      d: "on_run (AList.update ''complete'' (JBool False)) (config_obj c) = Inr d"
         "run_section d = Some (AList.update ''complete'' (JBool False) run)"
      by blast
    show ?thesis
      by (simp add: dont_complete_run_def d write_config_def run_key_def id_xor_title_def assms
            update_conv')
  qed
  from A B C D show ?thesis by blast
qed

theorem run_id_xor_title_witness:
  "run_section (config_obj config_with_title) =
     Some [(''complete'', JBool True), (''title'', JStr ''X'')]
   \<and> id_xor_title (config_obj config_with_title)
   \<and> (\<exists>c'. add_run_id (\<lambda>s. None) (IdInt 7) config_with_title = Inr c'
          \<and> run_key (config_obj c') ''id'' = Some (JInt 7)
          \<and> run_key (config_obj c') ''title'' = None
          \<and> run_key (config_obj c') ''complete'' = Some (JBool False)
          \<and> config_file c' = Some (config_obj c')
          \<and> id_xor_title (config_obj c'))
   \<and> (\<exists>c'. add_run_title ''Y'' config_with_title = Inr c'
          \<and> run_key (config_obj c') ''title'' = Some (JStr ''Y'')
          \<and> run_key (config_obj c') ''id'' = None
          \<and> run_key (config_obj c') ''complete'' = Some (JBool True)
          \<and> config_file c' = Some (config_obj c')
          \<and> id_xor_title (config_obj c'))
   \<and> (\<exists>c'. complete_run config_with_title = Inr c' \<and> id_xor_title (config_obj c'))
   \<and> (\<exists>c'. dont_complete_run config_with_title = Inr c' \<and> id_xor_title (config_obj c'))"
proof -
  have sec: "run_section (config_obj config_with_title) =
               Some [(''complete'', JBool True), (''title'', JStr ''X'')]"
    by (simp add: config_with_title_def run_section_def)
  have inv: "id_xor_title (config_obj config_with_title)"
    by (simp add: id_xor_title_def run_key_def sec)
  from run_id_xor_title[OF sec, of "\<lambda>s. None" 7 "''Y''"] sec inv show ?thesis
    by blast
qed

section \<open>Milestone, run and case wrappers\<close>

text \<open>
  The nine wrappers with a \<open>try\<close> turn an \<open>ApiException\<close> of their remote call into a
  logged error and the result \<open>None\<close>.
\<close>

lemma except_ApiException_caught:
  assumes "api (world s) req = (Inl ApiException, w)"
  shows "except_ApiException msg (call api req s) =
           (Inr None, s\<lparr>world := w, calls := calls s @ [(req, Inl ApiException)],
                         logged := logged s @ [(ERROR, msg)]\<rparr>)"
  using assms by (simp add: except_ApiException_def call_def logger_def)

lemma wrappers_catch:
  assumes "\<And>w req. api w req = (Inl ApiException, w)"
  shows "case_id \<noteq> 0 \<Longrightarrow> fst (get_test_case api case_id s) = Inr None"
    and "fst (create_qase_test_run api run_title custom_fields kwargs s) = Inr None"
    and "fst (complete_qase_test_run api run_id s) = Inr None"
    and "fst (delete_a_test_case api case_id s) = Inr None"
    and "fst (update_a_test_case api case_id upd s) = Inr None"
    and "fst (create_test_case api payload s) = Inr None"
    and "fst (create_qase_suite api name parent_id s) = Inr None"
    and "fst (update_suite api sid kwargs s) = Inr None"
    and "fst (get_run api run_id s) = Inr None"
  by (simp_all add: get_test_case_def create_qase_test_run_def complete_qase_test_run_def
        delete_a_test_case_def update_a_test_case_def create_test_case_def
        create_qase_suite_def update_suite_def get_run_def
        except_ApiException_def call_def assms Let_def)

text \<open>\<open>create_milestone\<close> hands every exception of its call to the caller.\<close>

lemma create_milestone_raises:
  assumes "api (world s) (CreateMilestone milestone_title) = (Inl e, w)"
  shows "create_milestone api milestone_title s =
           (Inl e, s\<lparr>world := w, calls := calls s @ [(CreateMilestone milestone_title, Inl e)]\<rparr>)"
  using assms by (simp add: create_milestone_def call_def)

text \<open>
  C7. The claim fails for \<open>create_milestone\<close>: when the remote call raises an
  \<open>ApiException\<close>, \<open>create_milestone\<close> raises it to the caller and logs nothing, where
  \<open>get_test_case\<close> on the same service returns \<open>None\<close> and logs the error.
\<close>

theorem create_milestone_propagates:
  "create_milestone down_api ''Sprint 1'' (new_session ()) =
     (Inl ApiException,
      \<lparr>world = (), calls = [(CreateMilestone ''Sprint 1'', Inl ApiException)], logged = []\<rparr>)
   \<and> get_test_case down_api 17 (new_session ()) =
     (Inr None,
      \<lparr>world = (), calls = [(GetCase 17, Inl ApiException)],
        logged = [(ERROR, ''Exception while trying to get Qase test case'')]\<rparr>)"
  by (simp add: create_milestone_def get_test_case_def except_ApiException_def call_def
        down_api_def new_session_def logger_def)

text \<open>
  C10. \<open>get_run\<close> with \<open>run_id = 0\<close>, the default and the only falsy \<open>int\<close>, returns
  \<open>None\<close> and leaves the session as it was: no remote call, no log line.
\<close>

theorem get_run_zero:
  "get_run api 0 s = (Inr None, s)"
  by (simp add: get_run_def)

section \<open>Suite synchronizer: the tokens of a suite name\<close>

lemma sync_files_aborts:
  assumes "f \<in> set fs" and "length (name_split f) = 1"
  shows "sync_files api depth move_cases root_id assert_parent qase_cases fs st \<noteq> (Inr u, st')"
  using assms
proof (induction fs arbitrary: st)
  case Nil
  then show ?case by simp
next
  case (Cons g fs)
  show ?case
  proof (cases "g = f")
    case True
    from Cons.prems(2) obtain t where "name_split f = [t]"
      by (cases "name_split f") auto
    then show ?thesis
      by (simp add: True sync_file_def then_do_def)
  next
    case False
    with Cons.prems have "f \<in> set fs" by simp
    from Cons.IH[OF this Cons.prems(2)] show ?thesis
      by (auto simp: then_do_def split: sum.splits prod.splits)
  qed
qed

text \<open>
  C9. A file whose suite name has no token is skipped. A file whose suite name is a
  single token is not skipped: its processing raises \<open>IndexError\<close> at once, in any
  state, before any call; when the files before it went through, the run of the whole
  list ends there with \<open>IndexError\<close>; and a run whose index holds such a file never
  returns a result.
\<close>

theorem single_token_suite_name_aborts:
  "(name_split f = [] \<longrightarrow>
      sync_file api depth move_cases root_id assert_parent qase_cases f st = (Inr (), st))
   \<and> (length (name_split f) = 1 \<longrightarrow>
      sync_file api depth move_cases root_id assert_parent qase_cases f st = (Inl IndexError, st)
      \<and> (sync_files api depth move_cases root_id assert_parent qase_cases pre st0 = (Inr (), st) \<longrightarrow>
           sync_files api depth move_cases root_id assert_parent qase_cases (pre @ f # post) st0 =
             (Inl IndexError, st))
      \<and> (f \<in> set full_index \<longrightarrow>
           (\<forall>res st'. update_test_suites_from_pytest api depth full_index move_cases root_id known
                        assert_parent s \<noteq> (Inr res, st'))))"
proof -
  have skip: "sync_file api depth move_cases root_id assert_parent qase_cases f st = (Inr (), st)"
    if "name_split f = []"
    using that by (simp add: sync_file_def)
  have one: "sync_file api depth move_cases root_id assert_parent qase_cases f st = (Inl IndexError, st)"
    if "length (name_split f) = 1" for st :: "'a sync"
  proof -
    from that obtain t where "name_split f = [t]"
      by (cases "name_split f") auto
    then show ?thesis by (simp add: sync_file_def)
  qed
  have pre: "sync_files api depth move_cases root_id assert_parent qase_cases (pre @ f # post) st0 =
               (Inl IndexError, st)"
    if "length (name_split f) = 1"
      and "sync_files api depth move_cases root_id assert_parent qase_cases pre st0 = (Inr (), st)"
    using that(2)
  proof (induction pre arbitrary: st0)
    case Nil
    then show ?case by (simp add: one[OF that(1)] then_do_def)
  next
    case (Cons g pre)
    then show ?case
      by (auto simp: then_do_def split: sum.splits prod.splits)
  qed
  have whole: "update_test_suites_from_pytest api depth full_index move_cases root_id known
                 assert_parent s \<noteq> (Inr res, st')"
    if "length (name_split f) = 1" and "f \<in> set full_index" for res st'
    using sync_files_aborts[OF that(2) that(1), of api depth move_cases root_id assert_parent]
    by (auto simp: update_test_suites_from_pytest_def Let_def
          split: sum.splits prod.splits)
  from skip one pre whole show ?thesis by blast
qed

theorem single_token_suite_name_aborts_witness:
  "name_split \<lparr>file_suite_name = Some ''  '', file_test_cases = Some []\<rparr> = []
   \<and> sync_file sim_api 1000 False None False [] \<lparr>file_suite_name = Some ''  '', file_test_cases = Some []\<rparr> start_sync
       = (Inr (), start_sync)
   \<and> length (name_split \<lparr>file_suite_name = Some ''smoke'', file_test_cases = Some []\<rparr>) = 1
   \<and> sync_file sim_api 1000 False None False [] \<lparr>file_suite_name = Some ''smoke'', file_test_cases = Some []\<rparr> start_sync
       = (Inl IndexError, start_sync)
   \<and> sync_files sim_api 1000 False None False [] [] start_sync = (Inr (), start_sync)
   \<and> sync_files sim_api 1000 False None False []
        ([] @ \<lparr>file_suite_name = Some ''smoke'', file_test_cases = Some []\<rparr> # []) start_sync
       = (Inl IndexError, start_sync)
   \<and> (\<forall>res st'. update_test_suites_from_pytest sim_api 1000
          [\<lparr>file_suite_name = Some ''smoke'', file_test_cases = Some []\<rparr>] False None None False
          (new_session empty_remote) \<noteq> (Inr res, st'))"
proof -
  have n0: "name_split \<lparr>file_suite_name = Some ''  '', file_test_cases = Some []\<rparr> = []"
    by (simp add: name_split_def is_space_def)
  have n1: "length (name_split \<lparr>file_suite_name = Some ''smoke'', file_test_cases = Some []\<rparr>) = 1"
    by (simp add: name_split_def is_space_def)
  have e: "sync_files sim_api 1000 False None False [] [] start_sync = (Inr (), start_sync)"
    by simp
  have m: "\<lparr>file_suite_name = Some ''smoke'', file_test_cases = Some []\<rparr>
             \<in> set [\<lparr>file_suite_name = Some ''smoke'', file_test_cases = Some []\<rparr>]"
    by simp
  from single_token_suite_name_aborts[where f = "\<lparr>file_suite_name = Some ''  '', file_test_cases = Some []\<rparr>"
         and api = sim_api and depth = 1000 and move_cases = False and root_id = None and assert_parent = False
         and qase_cases = "[]" and st = start_sync and pre = "[]" and ?st0.0 = start_sync and post = "[]"
         and full_index = "[]" and known = None and s = "new_session empty_remote"]
       single_token_suite_name_aborts[where f = "\<lparr>file_suite_name = Some ''smoke'', file_test_cases = Some []\<rparr>"
         and api = sim_api and depth = 1000 and move_cases = False and root_id = None and assert_parent = False
         and qase_cases = "[]" and st = start_sync and pre = "[]" and ?st0.0 = start_sync and post = "[]"
         and full_index = "[\<lparr>file_suite_name = Some ''smoke'', file_test_cases = Some []\<rparr>]"
         and known = None and s = "new_session empty_remote"]
       n0 n1 e m
  show ?thesis by blast
qed

section \<open>Case field editor\<close>

subsection \<open>Removal and the flag\<close>

lemma remove_values_flag_up:
  "remove_values k vs (m, True) = Inr (m', f) \<Longrightarrow> f"
  by (induction vs arbitrary: m) (auto split: option.splits if_splits simp: Let_def)

lemma remove_unwanted_flag_up:
  "remove_unwanted U (m, True) = Inr (m', f) \<Longrightarrow> f"
proof (induction U arbitrary: m)
  case Nil
  then show ?case by simp
next
  case (Cons p U)
  obtain k vs where p: "p = (k, vs)" by (cases p)
  show ?case
  proof (cases "map_of m k")
    case None
    with Cons p show ?thesis by simp
  next
    case (Some xs)
    with Cons.prems p obtain m1 f1 where
      1: "remove_values k vs (m, True) = Inr (m1, f1)" and 2: "remove_unwanted U (m1, f1) = Inr (m', f)"
      by (auto split: sum.splits)
    from remove_values_flag_up[OF 1] 2 Cons.IH show ?thesis by simp
  qed
qed

lemma remove_values_flag:
  assumes "remove_values k vs (m, found) = Inr (m', f)" and "map_of m k = Some xs"
  shows "f = (found \<or> (\<exists>v \<in> set vs. v \<in> set xs))
         \<and> ((\<forall>v \<in> set vs. v \<notin> set xs) \<longrightarrow> m' = m)"
  using assms
proof (induction vs arbitrary: m found)
  case Nil
  then show ?case by simp
next
  case (Cons v vs)
  show ?case
  proof (cases "v \<in> set xs")
    case True
    with Cons.prems have "f" 
      by (auto simp: Let_def dest: remove_values_flag_up split: if_splits)
    with True show ?thesis by auto
  next
    case False
    with Cons.prems have "remove_values k vs (m, found) = Inr (m', f)" by simp
    from Cons.IH[OF this Cons.prems(2)] False show ?thesis by auto
  qed
qed

lemma remove_values_no_match:
  assumes "map_of m k = Some xs" and "\<forall>v \<in> set vs. v \<notin> set xs"
  shows "remove_values k vs (m, found) = Inr (m, found)"
  using assms by (induction vs) auto

lemma unwanted_occurs_Cons:
  "unwanted_occurs ((k, vs) # U) m =
     ((case map_of m k of None \<Rightarrow> False | Some xs \<Rightarrow> \<exists>v \<in> set vs. v \<in> set xs)
      \<or> unwanted_occurs U m)"
  by (auto simp: unwanted_occurs_def split: option.splits)

lemma remove_unwanted_no_match:
  assumes "\<not> unwanted_occurs U m"
  shows "remove_unwanted U (m, found) = Inr (m, found)"
  using assms
proof (induction U)
  case Nil
  then show ?case by simp
next
  case (Cons p U)
  obtain k vs where p: "p = (k, vs)" by (cases p)
  from Cons.prems p have rest: "\<not> unwanted_occurs U m"
    and hd: "\<not> (case map_of m k of None \<Rightarrow> False | Some xs \<Rightarrow> \<exists>v \<in> set vs. v \<in> set xs)"
    by (simp_all add: unwanted_occurs_Cons)
  show ?case
  proof (cases "map_of m k")
    case None
    with Cons.IH[OF rest] p show ?thesis by simp
  next
    case (Some xs)
    with hd have "\<forall>v \<in> set vs. v \<notin> set xs" by simp
    from remove_values_no_match[OF Some this] Cons.IH[OF rest] p Some show ?thesis by simp
  qed
qed

lemma remove_unwanted_flag:
  assumes "remove_unwanted U (m, found) = Inr (m', f)"
  shows "f = (found \<or> unwanted_occurs U m)"
  using assms
proof (induction U arbitrary: m found)
  case Nil
  then show ?case by (simp add: unwanted_occurs_def)
next
  case (Cons p U)
  obtain k vs where p: "p = (k, vs)" by (cases p)
  show ?case
  proof (cases "map_of m k")
    case None
    with Cons p show ?thesis by (simp add: unwanted_occurs_Cons)
  next
    case (Some xs)
    with Cons.prems p obtain m1 f1 where
      1: "remove_values k vs (m, found) = Inr (m1, f1)" and 2: "remove_unwanted U (m1, f1) = Inr (m', f)"
      by (auto split: sum.splits)
    note rv = remove_values_flag[OF 1 Some]
    show ?thesis
    proof (cases "\<exists>v \<in> set vs. v \<in> set xs")
      case True
      with rv have "f1" by simp
      with 2 have "f" by (auto dest: remove_unwanted_flag_up)
      with True Some p show ?thesis by (simp add: unwanted_occurs_Cons)
    next
      case False
      with rv have "m1 = m" "f1 = found" by auto
      with 2 Cons.IH have "f = (found \<or> unwanted_occurs U m)" by simp
      with False Some p show ?thesis by (simp add: unwanted_occurs_Cons)
    qed
  qed
qed

text \<open>
  C3. For a case that the fetch delivers: when no listed unwanted pair occurs in its
  parameter map, \<open>replace_params_in_case\<close> ends after the fetch, with no update call and
  no log line, whatever \<open>wanted_params\<close> holds. Only when a pair occurs does it go on:
  then the removal loop either raises, or the update that is written carries the
  wanted parameters added to the map left by the removal.
\<close>

theorem replace_only_after_removal:
  assumes "case_id \<noteq> 0"
    and "api (world s) (GetCase case_id) = (Inr (WithCase c), w1)"
  shows "replace_params_in_case api list_set unwanted_params wanted_params case_id s =
     (let s1 = s\<lparr>world := w1, calls := calls s @ [(GetCase case_id, Inr (WithCase c))]\<rparr> in
      if unwanted_occurs unwanted_params (case_params c) then
        (case remove_unwanted unwanted_params (case_params c, False) of
           Inl e \<Rightarrow> (Inl e, s1)
         | Inr (removed, flag) \<Rightarrow>
             (case update_a_test_case api case_id
                     (ParamsUpdate (add_params list_set wanted_params removed))
                     (logger INFO ''Updating params'' (logger INFO ''Removing params'' s1)) of
                (Inl e, s2) \<Rightarrow> (Inl e, s2)
              | (Inr r, s2) \<Rightarrow> (Inr (), s2)))
      else (Inr (), s1))"
proof -
  define s1 where "s1 = s\<lparr>world := w1, calls := calls s @ [(GetCase case_id, Inr (WithCase c))]\<rparr>"
  have g: "get_test_case api case_id s = (Inr (Some (WithCase c)), s1)"
    using assms by (simp add: get_test_case_def except_ApiException_def call_def s1_def)
  show ?thesis
  proof (cases "unwanted_occurs unwanted_params (case_params c)")
    case False
    from remove_unwanted_no_match[OF this, of False] show ?thesis
      by (simp add: replace_params_in_case_def g params_of_def False s1_def[symmetric])
  next
    case True
    show ?thesis
    proof (cases "remove_unwanted unwanted_params (case_params c, False)")
      case (Inl e)
      then show ?thesis
        by (simp add: replace_params_in_case_def g params_of_def True s1_def[symmetric])
    next
      case (Inr p)
      obtain removed flag where p: "p = (removed, flag)" by (cases p)
      from remove_unwanted_flag[OF Inr[unfolded p]] True have "flag" by simp
      with Inr p show ?thesis
        by (simp add: replace_params_in_case_def g params_of_def True s1_def[symmetric])
    qed
  qed
qed

theorem replace_only_after_removal_witness:
  "(5::int) \<noteq> 0
   \<and> sim_api (world (new_session demo_remote)) (GetCase 5) =
       (Inr (WithCase (TestCase 5 None [(''os'', [''mac''])])), demo_remote)
   \<and> \<not> unwanted_occurs [(''os'', [''win''])] [(''os'', [''mac''])]
   \<and> replace_params_in_case sim_api remdups [(''os'', [''win''])] [(''browser'', [''chrome''])] 5
         (new_session demo_remote) =
       (Inr (),
        \<lparr>world = demo_remote,
          calls = [(GetCase 5, Inr (WithCase (TestCase 5 None [(''os'', [''mac''])])))],
          logged = []\<rparr>)"
proof -
  have f: "sim_api (world (new_session demo_remote)) (GetCase 5) =
             (Inr (WithCase (TestCase 5 None [(''os'', [''mac''])])), demo_remote)"
    by (simp add: new_session_def demo_remote_def)
  have n: "\<not> unwanted_occurs [(''os'', [''win''])] [(''os'', [''mac''])]"
    by (simp add: unwanted_occurs_def)
  have z: "(5::int) \<noteq> 0" by simp
  from replace_only_after_removal[where api = sim_api and s = "new_session demo_remote"
         and list_set = remdups and unwanted_params = "[(''os'', [''win''])]"
         and wanted_params = "[(''browser'', [''chrome''])]", OF z f] n f
  show ?thesis by (simp add: new_session_def)
qed

subsection \<open>Addition\<close>



lemma value_sets_update:
  "value_sets (AList.update k v m) k' = (if k' = k then Some (set v) else value_sets m k')"
  by (simp add: value_sets_def update_conv')







subsection \<open>Removal of unwanted parameters\<close>

text \<open>
  What the removal does when it goes through: with no listed pair in the map the case
  is skipped; the flag is raised exactly when a pair occurs.
\<close>

lemma remove_case_skips:
  assumes "case_id \<noteq> 0"
    and "api (world s) (GetCase case_id) = (Inr (WithCase c), w1)"
    and "\<not> unwanted_occurs unwanted_params (case_params c)"
  shows "remove_unwanted_params_from_case api unwanted_params case_id s =
           (Inr (), s\<lparr>world := w1, calls := calls s @ [(GetCase case_id, Inr (WithCase c))]\<rparr>)"
  using assms remove_unwanted_no_match[OF assms(3), of False]
  by (simp add: remove_unwanted_params_from_case_def get_test_case_def except_ApiException_def
        call_def params_of_def)

text \<open>
  C5. The claim fails where a key's list runs empty before the last listed value has
  been tried: with the parameters \<open>{'os': ['win']}\<close> and the unwanted parameters
  \<open>{'os': ['win', 'mac']}\<close> the key is deleted at \<open>'win'\<close>, and the test for \<open>'mac'\<close>
  subscripts the deleted key. The loop over the cases ends with \<open>KeyError\<close> at case 6:
  no update is written for it, and case 7 is never reached. With \<open>{'os': ['win']}\<close>
  alone the key is deleted and the empty map is written.
\<close>

theorem remove_unwanted_key_error:
  "remove_unwanted [(''os'', [''win'', ''mac''])] ([(''os'', [''win''])], False) = Inl KeyError
   \<and> qase_remove_unwanted_params_from_cases sim_api [6, 7] [(''os'', [''win'', ''mac''])]
         (new_session demo_remote) =
       (Inl KeyError,
        \<lparr>world = demo_remote,
          calls = [(GetCase 6, Inr (WithCase (TestCase 6 None [(''os'', [''win''])])))],
          logged = []\<rparr>)
   \<and> remove_unwanted [(''os'', [''win''])] ([(''os'', [''win''])], False) = Inr ([], True)
   \<and> fst (qase_remove_unwanted_params_from_cases sim_api [6] [(''os'', [''win''])]
         (new_session demo_remote)) = Inr ()
   \<and> map fst (calls (snd (qase_remove_unwanted_params_from_cases sim_api [6] [(''os'', [''win''])]
         (new_session demo_remote)))) = [GetCase 6, UpdateCase 6 (ParamsUpdate [])]"
  by (simp add: qase_remove_unwanted_params_from_cases_def remove_unwanted_params_from_case_def
        get_test_case_def except_ApiException_def call_def params_of_def new_session_def
        demo_remote_def update_a_test_case_def logger_def)

section \<open>Suite synchronizer: matching of titles\<close>

subsection \<open>Characters\<close>

lemma is_space_code:
  "is_space c = ((of_char c :: nat) \<in> {32, 9, 10, 11, 12, 13, 28, 29, 30, 31})"
proof -
  have eq: "(c = d) = ((of_char c :: nat) = of_char d)" for d
    by simp
  show ?thesis
    unfolding is_space_def
    by (simp add: eq del: of_char_eq_iff)
qed

lemma lower_char_code:
  "(of_char (lower_char c) :: nat) =
     (if 65 \<le> (of_char c :: nat) \<and> (of_char c :: nat) \<le> 90 then of_char c + 32 else of_char c)"
  by (simp add: lower_char_def Let_def)

lemma is_space_lower: "is_space (lower_char c) = is_space c"
  by (auto simp: is_space_code lower_char_code)

lemma lower_char_eq_iff:
  assumes "(of_char d :: nat) < 65 \<or> (of_char d :: nat) > 122"
  shows "(lower_char c = d) = (c = d)"
proof -
  have "(lower_char c = d) = ((of_char (lower_char c) :: nat) = of_char d)" by simp
  also have "\<dots> = ((of_char c :: nat) = of_char d)"
    using assms by (auto simp: lower_char_code)
  finally show ?thesis by simp
qed

lemma lower_paren: "(lower_char c = CHR ''('') = (c = CHR ''('')"
  by (rule lower_char_eq_iff) simp

lemma lower_hyphen: "(lower_char c = CHR ''-'') = (c = CHR ''-'')"
  by (rule lower_char_eq_iff) simp

lemma lower_paren_sym: "(CHR ''('' = lower_char c) = (CHR ''('' = c)"
  by (metis lower_paren)

lemma lower_hyphen_sym: "(CHR ''-'' = lower_char c) = (CHR ''-'' = c)"
  by (metis lower_hyphen)

lemma py_lower_paren: "(CHR ''('' \<in> set (py_lower s)) = (CHR ''('' \<in> set s)"
  by (induction s) (simp_all add: py_lower_def lower_paren_sym)

lemma py_lower_hyphen: "(CHR ''-'' \<in> set (py_lower s)) = (CHR ''-'' \<in> set s)"
  by (induction s) (simp_all add: py_lower_def lower_hyphen_sym)

lemma dropWhile_hd: "xs \<noteq> [] \<Longrightarrow> \<not> P (hd xs) \<Longrightarrow> dropWhile P xs = xs"
  by (cases xs) auto

lemma lower_blank: "py_lower '' '' = '' ''"
  by (simp add: py_lower_def lower_char_eq_iff)

lemma py_split_tokens: "t \<in> set (py_split s) \<Longrightarrow> token t"
proof (induction s rule: py_split.induct)
  case 1
  then show ?case by simp
next
  case (2 c cs)
  show ?case
  proof (cases "is_space c")
    case True
    with "2.prems" have "t \<in> set (py_split cs)" by simp
    with "2.IH"(1)[OF True] show ?thesis .
  next
    case False
    with "2.prems" consider "t = c # takeWhile (\<lambda>x. \<not> is_space x) cs"
      | "t \<in> set (py_split (dropWhile (\<lambda>x. \<not> is_space x) cs))"
      by auto
    then show ?thesis
    proof cases
      case 1
      have "\<forall>x \<in> set (takeWhile (\<lambda>x. \<not> is_space x) cs). \<not> is_space x"
      proof
        fix x
        assume "x \<in> set (takeWhile (\<lambda>x. \<not> is_space x) cs)"
        from set_takeWhileD[OF this] show "\<not> is_space x" by simp
      qed
      with 1 False show ?thesis by (simp add: token_def)
    next
      case 2
      with "2.IH"(2)[OF False] show ?thesis .
    qed
  qed
qed

lemma py_split_chars: "t \<in> set (py_split s) \<Longrightarrow> set t \<subseteq> set s"
proof (induction s rule: py_split.induct)
  case 1
  then show ?case by simp
next
  case (2 c cs)
  show ?case
  proof (cases "is_space c")
    case True
    with "2.prems" have "t \<in> set (py_split cs)" by simp
    with "2.IH"(1)[OF True] show ?thesis by auto
  next
    case False
    with "2.prems" consider "t = c # takeWhile (\<lambda>x. \<not> is_space x) cs"
      | "t \<in> set (py_split (dropWhile (\<lambda>x. \<not> is_space x) cs))"
      by auto
    then show ?thesis
    proof cases
      case 1
      have "set (takeWhile (\<lambda>x. \<not> is_space x) cs) \<subseteq> set cs"
      proof
        fix x
        assume "x \<in> set (takeWhile (\<lambda>x. \<not> is_space x) cs)"
        from set_takeWhileD[OF this] show "x \<in> set cs" by simp
      qed
      with 1 show ?thesis by auto
    next
      case 2
      from "2.IH"(2)[OF False 2]
      have "set t \<subseteq> set (dropWhile (\<lambda>x. \<not> is_space x) cs)" .
      also have "\<dots> \<subseteq> set cs"
      proof
        fix x
        assume "x \<in> set (dropWhile (\<lambda>x. \<not> is_space x) cs)"
        from set_dropWhileD[OF this] show "x \<in> set cs" .
      qed
      finally show ?thesis by auto
    qed
  qed
qed

lemma py_join_chars: "set (py_join sep ts) \<subseteq> set sep \<union> \<Union>(set ` set ts)"
  by (induction sep ts rule: py_join.induct) auto

lemma py_split_token:
  assumes "token t" and "rest = [] \<or> is_space (hd rest)"
  shows "py_split (t @ rest) = t # py_split rest"
proof -
  from assms(1) obtain c t' where t: "t = c # t'" and c: "\<not> is_space c"
    and t': "\<forall>x \<in> set t'. \<not> is_space x"
    by (cases t) (auto simp: token_def)
  have tw: "takeWhile (\<lambda>x. \<not> is_space x) rest = []" and dw: "dropWhile (\<lambda>x. \<not> is_space x) rest = rest"
    using assms(2) by (cases rest; auto)+
  have "takeWhile (\<lambda>x. \<not> is_space x) (t' @ rest) = t'"
    using t' tw by (simp add: takeWhile_append2)
  moreover have "dropWhile (\<lambda>x. \<not> is_space x) (t' @ rest) = rest"
    using t' dw by (simp add: dropWhile_append2)
  ultimately show ?thesis using c by (simp add: t)
qed

lemma blank_space: "is_space CHR '' ''"
  by (simp add: is_space_def)

lemma py_split_join:
  assumes "\<forall>t \<in> set ts. token t"
  shows "py_split (py_join '' '' ts) = ts"
  using assms
proof (induction "'' ''" ts rule: py_join.induct)
  case 1
  then show ?case by simp
next
  case (2 x)
  then show ?case using py_split_token[of x "[]"] by simp
next
  case (3 x y ys)
  have "py_split (x @ CHR '' '' # py_join '' '' (y # ys)) = x # py_split (CHR '' '' # py_join '' '' (y # ys))"
    using 3 by (intro py_split_token) (simp_all add: blank_space)
  with 3 show ?case by (simp add: blank_space)
qed

lemma py_lower_join: "py_lower (py_join sep ts) = py_join (py_lower sep) (map py_lower ts)"
  by (induction sep ts rule: py_join.induct) (simp_all add: py_lower_def)

lemma token_lower: "token t \<Longrightarrow> token (py_lower t)"
  by (simp add: token_def py_lower_def is_space_lower)

lemma py_join_ends:
  assumes "ts \<noteq> []" and "\<forall>t \<in> set ts. t \<noteq> []"
  shows "py_join sep ts \<noteq> [] \<and> hd (py_join sep ts) = hd (hd ts)
         \<and> last (py_join sep ts) = last (last ts)"
  using assms
  by (induction sep ts rule: py_join.induct) auto

lemma py_strip_id:
  assumes "s = [] \<or> (\<not> is_space (hd s) \<and> \<not> is_space (last s))"
  shows "py_strip s = s"
proof (cases s)
  case Nil
  then show ?thesis by (simp add: py_strip_def)
next
  case (Cons c cs)
  with assms have h: "\<not> is_space (hd s)" and l: "\<not> is_space (last s)" by auto
  have 1: "dropWhile is_space s = s" using h Cons by simp
  have "rev s \<noteq> []" "hd (rev s) = last s" using Cons by (simp_all add: hd_rev)
  then have 2: "dropWhile is_space (rev s) = rev s" using l by (intro dropWhile_hd) simp_all
  show ?thesis by (simp add: py_strip_def 1 2)
qed

lemma py_strip_chars: "set (py_strip s) \<subseteq> set s"
  by (auto simp: py_strip_def dest!: set_dropWhileD)

lemma py_strip_join:
  assumes "\<forall>t \<in> set ts. token t"
  shows "py_strip (py_join '' '' ts) = py_join '' '' ts"
proof (cases "ts = []")
  case True
  then show ?thesis by (simp add: py_strip_def)
next
  case False
  from assms have ne: "\<forall>t \<in> set ts. t \<noteq> []" by (simp add: token_def)
  note e = py_join_ends[OF False ne, of "'' ''"]
  have "hd ts \<in> set ts" "last ts \<in> set ts" using False by simp_all
  with assms have "token (hd ts)" "token (last ts)" by auto
  then have "\<not> is_space (hd (hd ts))" "\<not> is_space (last (last ts))"
    by (auto simp: token_def)
  with e show ?thesis by (intro py_strip_id) simp
qed

lemma clean_local_name:
  assumes toks: "\<forall>t \<in> set ts. token t" and name: "name = py_join '' '' ts"
    and hy: "CHR ''-'' \<notin> set name" and pa: "CHR ''('' \<notin> set name"
  shows "clean_suite_name name = py_lower name"
proof -
  define L where "L = py_lower name"
  have L: "L = py_join '' '' (map py_lower ts)"
    by (simp add: L_def name py_lower_join lower_blank)
  have ltoks: "\<forall>t \<in> set (map py_lower ts). token t"
    using toks by (auto simp: token_lower)
  have "CHR ''('' \<notin> set L" using pa by (simp add: L_def py_lower_paren)
  then have 1: "takeWhile (\<lambda>c. c \<noteq> CHR ''('') L = L"
    by (auto simp: takeWhile_eq_all_conv)
  have 2: "py_strip L = L" unfolding L by (rule py_strip_join[OF ltoks])
  have "CHR ''-'' \<notin> set L" using hy by (simp add: L_def py_lower_hyphen)
  then have 3: "filter (\<lambda>c. c \<noteq> CHR ''-'') L = L"
    by (auto simp: filter_id_conv)
  have 4: "py_split L = map py_lower ts" unfolding L by (rule py_split_join[OF ltoks])
  show ?thesis
    unfolding clean_suite_name_def L_def[symmetric] 1 2 3 4 by (simp add: L)
qed

lemma clean_suite_name_chars:
  "CHR ''-'' \<notin> set (clean_suite_name remote_title) \<and> CHR ''('' \<notin> set (clean_suite_name remote_title)"
proof -
  define s where "s = filter (\<lambda>c. c \<noteq> CHR ''-'')
             (py_strip (takeWhile (\<lambda>c. c \<noteq> CHR ''('') (py_lower remote_title)))"
  have "CHR ''('' \<notin> set (takeWhile (\<lambda>c. c \<noteq> CHR ''('') (py_lower remote_title))"
    by (auto dest: set_takeWhileD)
  then have "CHR ''('' \<notin> set s" using py_strip_chars by (fastforce simp: s_def)
  moreover have "CHR ''-'' \<notin> set s" by (simp add: s_def)
  moreover have "set (clean_suite_name remote_title) \<subseteq> set '' '' \<union> set s"
    using py_join_chars[of "'' ''" "py_split s"] py_split_chars[of _ s]
    by (fastforce simp: clean_suite_name_def s_def[symmetric])
  ultimately show ?thesis by auto
qed

text \<open>
  C6, as the claim states it, fails: the local name is lower-cased and nothing else.
  The remote title \<open>Client-API\<close> and the local name \<open>client-api\<close> have the same
  normal form, and the code does not match them.
\<close>

theorem title_matches_not_normalized:
  "title_matches ''Client-API'' ''client-api'' \<noteq> spec_title_matches ''Client-API'' ''client-api''"
  by code_simp

text \<open>
  C6, amended. The cleaned remote title is compared with the lower-cased local name.
  The title \<open>API - Tests (v2)\<close> matches the local name \<open>api tests\<close>. A local name
  with a hyphen or an opening parenthesis matches no remote title. For a local name
  made of tokens of a suite name joined by single blanks, as the parent-suite and the
  leaf-suite names are, and free of hyphens and opening parentheses, the comparison is
  the one that normalizes both sides.
\<close>

theorem title_matches_lowered_name:
  "title_matches ''API - Tests (v2)'' ''api tests''
   \<and> (CHR ''-'' \<in> set name \<or> CHR ''('' \<in> set name \<longrightarrow> \<not> title_matches remote_title name)
   \<and> (set ts \<subseteq> set (py_split s) \<and> name = py_join '' '' ts
        \<and> CHR ''-'' \<notin> set name \<and> CHR ''('' \<notin> set name \<longrightarrow>
      title_matches remote_title name = spec_title_matches remote_title name)"
proof -
  have a: "title_matches ''API - Tests (v2)'' ''api tests''"
    by code_simp
  have b: "\<not> title_matches remote_title name" if "CHR ''-'' \<in> set name \<or> CHR ''('' \<in> set name"
  proof
    assume "title_matches remote_title name"
    then have eq: "clean_suite_name remote_title = py_lower name" by (simp add: title_matches_def)
    from that have "CHR ''-'' \<in> set (py_lower name) \<or> CHR ''('' \<in> set (py_lower name)"
      by (simp add: py_lower_hyphen py_lower_paren)
    with clean_suite_name_chars[of remote_title] eq show False by auto
  qed
  have c: "title_matches remote_title name = spec_title_matches remote_title name"
    if "set ts \<subseteq> set (py_split s)" "name = py_join '' '' ts"
       "CHR ''-'' \<notin> set name" "CHR ''('' \<notin> set name"
  proof -
    from that(1) have "\<forall>t \<in> set ts. token t" by (auto dest: py_split_tokens)
    from clean_local_name[OF this that(2,3,4)] show ?thesis
      by (simp add: title_matches_def spec_title_matches_def)
  qed
  from a b c show ?thesis by blast
qed

theorem title_matches_lowered_name_witness:
  "set [''api'', ''tests''] \<subseteq> set (py_split ''x api tests'')
   \<and> ''api tests'' = py_join '' '' [''api'', ''tests'']
   \<and> CHR ''-'' \<notin> set ''api tests'' \<and> CHR ''('' \<notin> set ''api tests''
   \<and> title_matches ''API - Tests (v2)'' ''api tests'' =
       spec_title_matches ''API - Tests (v2)'' ''api tests''
   \<and> CHR ''-'' \<in> set ''client-api''
   \<and> \<not> title_matches ''Client-API'' ''client-api''"
proof -
  have 1: "set [''api'', ''tests''] \<subseteq> set (py_split ''x api tests'')"
    by (simp add: is_space_def)
  have 2: "''api tests'' = py_join '' '' [''api'', ''tests'']"
    by simp
  have 3: "CHR ''-'' \<notin> set ''api tests''" "CHR ''('' \<notin> set ''api tests''"
    by simp_all
  have 4: "CHR ''-'' \<in> set ''client-api''"
    by simp
  from title_matches_lowered_name[where name = "''api tests''" and ts = "[''api'', ''tests'']"
         and s = "''x api tests''" and remote_title = "''API - Tests (v2)''"]
       title_matches_lowered_name[where name = "''client-api''" and remote_title = "''Client-API''"
         and ts = "[]" and s = "[]"]
       1 2 3 4
  show ?thesis by blast
qed

section \<open>Suite synchronizer: created suites\<close>

subsection \<open>Records of calls\<close>

lemma creations_append [simp]: "creations (xs @ ys) = creations xs @ creations ys"
  by (induction xs) (auto split: option.splits)




subsection \<open>What the fetches and the create call add to the record\<close>










subsection \<open>The effect of each step on the variables\<close>













subsection \<open>The invariant is kept\<close>











subsection \<open>A file, and the list of files\<close>










subsection \<open>Recorded files keep their ids\<close>









subsection \<open>The run\<close>






end
